theory Spec2Isabelle
  imports Complex_Main "HOL-Library.Word"
begin

section \<open>Python values the services rely on\<close>

subsection \<open>Exceptions and \<open>except\<close> clauses\<close>

text \<open>
  The exception classes that the authentication core raises or catches, with the
  class hierarchy of CPython and itsdangerous: \<open>UnicodeEncodeError\<close> and
  \<open>UnicodeDecodeError\<close> derive from \<open>UnicodeError\<close>, which derives from
  \<open>ValueError\<close>; \<open>OverflowError\<close> derives from \<open>ArithmeticError\<close>;
  \<open>SignatureExpired\<close> derives from \<open>BadTimeSignature\<close>, which
  derives from \<open>BadSignature\<close>, which derives from \<open>BadData\<close>. Every class here
  derives from \<open>Exception\<close>.
\<close>

datatype py_class =
    Exception | TypeError | AttributeError | ValueError
  | UnicodeError | UnicodeEncodeError | UnicodeDecodeError
  | ArithmeticError | OverflowError
  | BadData | BadSignature | BadTimeSignature | SignatureExpired

fun mro :: "py_class \<Rightarrow> py_class list" where
  "mro Exception = [Exception]"
| "mro TypeError = [TypeError, Exception]"
| "mro AttributeError = [AttributeError, Exception]"
| "mro ValueError = [ValueError, Exception]"
| "mro UnicodeError = [UnicodeError, ValueError, Exception]"
| "mro UnicodeEncodeError = [UnicodeEncodeError, UnicodeError, ValueError, Exception]"
| "mro UnicodeDecodeError = [UnicodeDecodeError, UnicodeError, ValueError, Exception]"
| "mro ArithmeticError = [ArithmeticError, Exception]"
| "mro OverflowError = [OverflowError, ArithmeticError, Exception]"
| "mro BadData = [BadData, Exception]"
| "mro BadSignature = [BadSignature, BadData, Exception]"
| "mro BadTimeSignature = [BadTimeSignature, BadSignature, BadData, Exception]"
| "mro SignatureExpired =
     [SignatureExpired, BadTimeSignature, BadSignature, BadData, Exception]"

definition issubclass :: "py_class \<Rightarrow> py_class \<Rightarrow> bool" where
  "issubclass c d = (d \<in> set (mro c))"

text \<open>
  What a call can raise: an exception of one of the classes above, or FastAPI's
  \<open>HTTPException(status_code, detail)\<close>, itself a subclass of \<open>Exception\<close>.
\<close>

datatype raised = Raised py_class | HTTPException nat string

fun isinstance :: "raised \<Rightarrow> py_class \<Rightarrow> bool" where
  "isinstance (Raised c) d = issubclass c d"
| "isinstance (HTTPException s m) d = (d = Exception)"

text \<open>\<open>except (C1, ..., Cn)\<close> handles an exception that is an instance of one of the classes.\<close>

definition except :: "py_class list \<Rightarrow> raised \<Rightarrow> bool" where
  "except cs e = list_ex (isinstance e) cs"

subsection \<open>Strings\<close>

text \<open>
  A \<open>str\<close> is a list of code points below 256, and a \<open>bytes\<close> value is a list of
  bytes. \<open>str.isspace\<close> on that range holds for the code points 9 to 13, 28 to 32,
  133 and 160.
\<close>

definition py_isspace :: "char \<Rightarrow> bool" where
  "py_isspace c =
     (let n = (of_char c :: nat)
      in (9 \<le> n \<and> n \<le> 13) \<or> (28 \<le> n \<and> n \<le> 32) \<or> n = 133 \<or> n = 160)"

definition strip :: "string \<Rightarrow> string" where
  "strip s = rev (dropWhile py_isspace (rev (dropWhile py_isspace s)))"

text \<open>\<open>s.replace(c, "")\<close> for a one-character \<open>c\<close>.\<close>

definition replace_empty :: "char \<Rightarrow> string \<Rightarrow> string" where
  "replace_empty c s = filter (\<lambda>x. x \<noteq> c) s"

definition startswith :: "string \<Rightarrow> string \<Rightarrow> bool" where
  "startswith s p = (take (length p) s = p)"

text \<open>\<open>s.split(c)[0]\<close>: the part of \<open>s\<close> before the first \<open>c\<close>.\<close>

definition split_first :: "char \<Rightarrow> string \<Rightarrow> string" where
  "split_first c s = takeWhile (\<lambda>x. x \<noteq> c) s"

text \<open>
  \<open>if v:\<close> for a \<open>v\<close> of type \<open>str | None\<close>: the branch is taken when \<open>v\<close> is
  a non-empty string, and \<open>truthy\<close> gives that string.
\<close>

definition truthy :: "string option \<Rightarrow> string option" where
  "truthy v = (case v of None \<Rightarrow> None | Some s \<Rightarrow> if s = [] then None else Some s)"

text \<open>\<open>x or y\<close> for values of type \<open>str | None\<close>: \<open>x\<close> when it is truthy, else \<open>y\<close>.\<close>

definition py_or :: "string option \<Rightarrow> string option \<Rightarrow> string option" where
  "py_or x y = (case truthy x of Some s \<Rightarrow> Some s | None \<Rightarrow> y)"

subsection \<open>Floats\<close>

text \<open>
  The result of a float operation on finite operands: a finite float, given by the
  real number it denotes, or an infinity. \<open>float_gt t c\<close> is \<open>t > c\<close> for a finite
  \<open>t\<close>.
\<close>

datatype pyfloat = Finite real | PosInf | NegInf

fun float_gt :: "real \<Rightarrow> pyfloat \<Rightarrow> bool" where
  "float_gt t (Finite c) = (t > c)"
| "float_gt t PosInf = False"
| "float_gt t NegInf = True"

section \<open>Requests\<close>

record client_addr =
  host :: string

record request =
  headers :: "string \<rightharpoonup> string"
  cookies :: "string \<rightharpoonup> string"
  client :: "client_addr option"
  url_path :: string

section \<open>Client address (app/services/rate\_limit.py)\<close>

definition get_client_ip :: "request \<Rightarrow> string" where
  "get_client_ip req =
     (case truthy (headers req ''X-Forwarded-For'') of
        Some forwarded \<Rightarrow> strip (split_first CHR '','' forwarded)
      | None \<Rightarrow>
          (case truthy (headers req ''X-Real-IP'') of
             Some real_ip \<Rightarrow> strip real_ip
           | None \<Rightarrow>
               (case client req of
                  Some c \<Rightarrow> host c
                | None \<Rightarrow> ''unknown'')))"

section \<open>Library functions\<close>

text \<open>
  Raising is a result: \<open>Inl e\<close> when the call raises \<open>e\<close>, \<open>Inr v\<close> when it returns
  \<open>v\<close>. \<open>and_then\<close> sequences two statements; \<open>try_except body cs v\<close> is
  \<open>try: return body\<close> followed by \<open>except cs: return v\<close>.
\<close>

definition and_then :: "raised + 'a \<Rightarrow> ('a \<Rightarrow> raised + 'b) \<Rightarrow> raised + 'b" where
  "and_then m f = (case m of Inl e \<Rightarrow> Inl e | Inr x \<Rightarrow> f x)"

definition try_except :: "raised + 'a \<Rightarrow> py_class list \<Rightarrow> 'a \<Rightarrow> raised + 'a" where
  "try_except body cs v =
     (case body of Inr x \<Rightarrow> Inr x | Inl e \<Rightarrow> if except cs e then Inr v else Inl e)"

text \<open>
  The functions of the Python runtime and of bcrypt that the services call; they are
  not code of this repository and are parameters of the model:
  \<open>str.encode("utf-8")\<close>, \<open>bytes.decode("utf-8")\<close>, \<open>bcrypt.checkpw\<close>, \<open>str(uuid)\<close>,
  the constructor \<open>UUID(hex)\<close>, and the subtraction \<open>x - n\<close> of an \<open>int\<close> from a float,
  which converts \<open>n\<close> to a float (\<open>OverflowError\<close> when it is too large) and rounds
  the difference. A UUID is its 128-bit number.
\<close>

type_synonym uuid = "128 word"

record runtime =
  str_encode :: "string \<Rightarrow> raised + string"
  bytes_decode :: "string \<Rightarrow> raised + string"
  checkpw :: "string \<Rightarrow> string \<Rightarrow> raised + bool"
  uuid_str :: "uuid \<Rightarrow> string"
  UUID :: "string \<Rightarrow> raised + uuid"
  float_sub_int :: "real \<Rightarrow> int \<Rightarrow> raised + pyfloat"

text \<open>
  An \<open>itsdangerous.TimestampSigner\<close> built from a secret key. \<open>sign t v\<close> is
  \<open>sign(v)\<close> when the clock (\<open>int(time.time())\<close>) reads \<open>t\<close>, and \<open>unsign t s m\<close> is
  \<open>unsign(s, max_age=m)\<close> at clock reading \<open>t\<close>.
\<close>

record TimestampSigner =
  sign :: "nat \<Rightarrow> string \<Rightarrow> string"
  unsign :: "nat \<Rightarrow> string \<Rightarrow> int \<Rightarrow> raised + string"

text \<open>
  What the documentation of these libraries promises, as far as the properties below
  need it. The strict UTF-8 codec is a bijection between the strings it encodes and
  the byte strings it decodes, and fails with a \<open>UnicodeError\<close> only.
\<close>

definition codec_roundtrip :: "runtime \<Rightarrow> bool" where
  "codec_roundtrip L =
     ((\<forall>s b. str_encode L s = Inr b \<longrightarrow> bytes_decode L b = Inr s) \<and>
      (\<forall>b s. bytes_decode L b = Inr s \<longrightarrow> str_encode L s = Inr b))"

definition codec_raises :: "runtime \<Rightarrow> bool" where
  "codec_raises L =
     ((\<forall>s e. str_encode L s = Inl e \<longrightarrow> e = Raised UnicodeEncodeError) \<and>
      (\<forall>b e. bytes_decode L b = Inl e \<longrightarrow> e = Raised UnicodeDecodeError))"

text \<open>\<open>UUID(str(u)) == u\<close>, and \<open>UUID(hex)\<close> on a string raises \<open>ValueError\<close> only.\<close>

definition uuid_roundtrip :: "runtime \<Rightarrow> bool" where
  "uuid_roundtrip L = (\<forall>u. UUID L (uuid_str L u) = Inr u)"

definition uuid_raises :: "runtime \<Rightarrow> bool" where
  "uuid_raises L = (\<forall>s e. UUID L s = Inl e \<longrightarrow> e = Raised ValueError)"

text \<open>
  \<open>unsign\<close> gives back a value signed by the same signer while the age of the
  signature, \<open>now - signed_at\<close>, is neither negative nor above \<open>max_age\<close>; when it
  fails, it raises \<open>BadSignature\<close> or one of its subclasses.
\<close>

definition signer_roundtrip :: "TimestampSigner \<Rightarrow> bool" where
  "signer_roundtrip S =
     (\<forall>t0 t1 m v. t0 \<le> t1 \<and> int t1 - int t0 \<le> m \<longrightarrow> unsign S t1 (sign S t0 v) m = Inr v)"

definition signer_raises :: "TimestampSigner \<Rightarrow> bool" where
  "signer_raises S = (\<forall>t s m e. unsign S t s m = Inl e \<longrightarrow> isinstance e BadSignature)"

section \<open>Rate limiting (app/services/rate\_limit.py)\<close>

text \<open>
  \<open>RateLimiter._requests\<close> is a \<open>defaultdict(list)\<close>: a key that was never
  used reads as the empty list. A clock reading (\<open>time.time()\<close>) is a finite float,
  given by the real number it denotes. The cutoff \<open>now - window_seconds\<close> is computed
  by the runtime's \<open>float_sub_int\<close>: it raises when the window does not convert to a
  float, before the history is touched, and its result is rounded.
\<close>

record RateLimiter =
  requests :: "string \<Rightarrow> real list"

definition is_allowed ::
  "runtime \<Rightarrow> RateLimiter \<Rightarrow> real \<Rightarrow> string \<Rightarrow> int \<Rightarrow> int
     \<Rightarrow> raised + (bool \<times> int) \<times> RateLimiter" where
  "is_allowed L rl now key max_requests window_seconds =
     and_then (float_sub_int L now window_seconds) (\<lambda>cutoff.
       let reqs = filter (\<lambda>req_time. float_gt req_time cutoff) (requests rl key)
       in if int (length reqs) \<ge> max_requests
          then Inr ((False, 0), rl\<lparr>requests := (requests rl)(key := reqs)\<rparr>)
          else (let reqs' = reqs @ [now];
                    remaining = max 0 (max_requests - int (length reqs'))
                in Inr ((True, remaining), rl\<lparr>requests := (requests rl)(key := reqs')\<rparr>)))"

definition get_remaining ::
  "runtime \<Rightarrow> RateLimiter \<Rightarrow> real \<Rightarrow> string \<Rightarrow> int \<Rightarrow> int \<Rightarrow> raised + int \<times> RateLimiter" where
  "get_remaining L rl now key max_requests window_seconds =
     and_then (float_sub_int L now window_seconds) (\<lambda>cutoff.
       let reqs = filter (\<lambda>req_time. float_gt req_time cutoff) (requests rl key)
       in Inr (max 0 (max_requests - int (length reqs)),
               rl\<lparr>requests := (requests rl)(key := reqs)\<rparr>))"

text \<open>
  Successive calls of \<open>is_allowed\<close> for one key and one policy, at the clock readings
  of the list, each on the state the previous call left; a call that raises ends the
  run.
\<close>

fun is_allowed_calls ::
  "runtime \<Rightarrow> RateLimiter \<Rightarrow> string \<Rightarrow> int \<Rightarrow> int \<Rightarrow> real list
     \<Rightarrow> raised + (bool \<times> int) list \<times> RateLimiter" where
  "is_allowed_calls L rl key n w [] = Inr ([], rl)"
| "is_allowed_calls L rl key n w (t # ts) =
     (case is_allowed L rl t key n w of
        Inl e \<Rightarrow> Inl e
      | Inr (r, rl') \<Rightarrow>
          (case is_allowed_calls L rl' key n w ts of
             Inl e \<Rightarrow> Inl e
           | Inr (rs, rl'') \<Rightarrow> Inr (r # rs, rl'')))"

text \<open>
  \<open>in_window L w t u\<close>: at a call at clock reading \<open>u\<close> the cutoff is computed without
  raising, and the reading \<open>t\<close> is later than it, so the call keeps \<open>t\<close>. The clock
  readings of a run lie within one window when the cutoff can be computed at each of
  them and every reading is kept by all later calls of the run.
\<close>

definition in_window :: "runtime \<Rightarrow> int \<Rightarrow> real \<Rightarrow> real \<Rightarrow> bool" where
  "in_window L w t u =
     (case float_sub_int L u w of Inl e \<Rightarrow> False | Inr cutoff \<Rightarrow> float_gt t cutoff)"

definition cutoff_defined :: "runtime \<Rightarrow> int \<Rightarrow> real \<Rightarrow> bool" where
  "cutoff_defined L w t = (case float_sub_int L t w of Inl e \<Rightarrow> False | Inr cutoff \<Rightarrow> True)"

fun within_window :: "runtime \<Rightarrow> int \<Rightarrow> real list \<Rightarrow> bool" where
  "within_window L w [] = True"
| "within_window L w (t # ts) =
     (cutoff_defined L w t \<and> list_all (in_window L w t) ts \<and> within_window L w ts)"

section \<open>Credential hashing (app/services/password.py, app/services/api\_key.py)\<close>

definition verify_password :: "runtime \<Rightarrow> string \<Rightarrow> string \<Rightarrow> raised + bool" where
  "verify_password L plain_password hashed_password =
     try_except
       (and_then (str_encode L plain_password) (\<lambda>password_bytes.
        and_then (str_encode L hashed_password) (\<lambda>hash_bytes.
        and_then (checkpw L password_bytes hash_bytes) (\<lambda>result.
        Inr result))))
       [Exception] False"

definition verify_api_key :: "runtime \<Rightarrow> string \<Rightarrow> string \<Rightarrow> raised + bool" where
  "verify_api_key L plain_key hashed_key =
     try_except
       (and_then (str_encode L plain_key) (\<lambda>password_bytes.
        and_then (str_encode L hashed_key) (\<lambda>hash_bytes.
        and_then (checkpw L password_bytes hash_bytes) (\<lambda>result.
        Inr result))))
       [Exception] False"

section \<open>Sessions (app/services/session.py)\<close>

record SessionManager =
  signer :: TimestampSigner
  expire_hours :: int

text \<open>
  \<open>signer.sign(str(user_id))\<close> encodes its argument to bytes before signing; the
  signed bytes are decoded to the token.
\<close>

definition create_session :: "runtime \<Rightarrow> SessionManager \<Rightarrow> nat \<Rightarrow> uuid \<Rightarrow> raised + string" where
  "create_session L M now user_id =
     and_then (str_encode L (uuid_str L user_id)) (\<lambda>value.
     bytes_decode L (sign (signer M) now value))"

definition verify_session ::
  "runtime \<Rightarrow> SessionManager \<Rightarrow> nat \<Rightarrow> string \<Rightarrow> raised + uuid option" where
  "verify_session L M now session_token =
     try_except
       (and_then (str_encode L session_token) (\<lambda>token_bytes.
        and_then (unsign (signer M) now token_bytes (expire_hours M * 3600)) (\<lambda>user_id_str.
        and_then (bytes_decode L user_id_str) (\<lambda>user_id_text.
        and_then (UUID L user_id_text) (\<lambda>user_id.
        Inr (Some user_id))))))
       [BadSignature, SignatureExpired, ValueError] None"

section \<open>CSRF tokens (app/services/csrf.py, app/middleware/csrf.py)\<close>

record CSRFService =
  csrf_signer :: TimestampSigner

definition verify_token :: "runtime \<Rightarrow> CSRFService \<Rightarrow> nat \<Rightarrow> string \<Rightarrow> raised + bool" where
  "verify_token L C now token =
     (if token = [] then Inr False
      else try_except
             (and_then (str_encode L token) (\<lambda>token_bytes.
              and_then (unsign (csrf_signer C) now token_bytes 3600) (\<lambda>value.
              Inr True)))
             [BadSignature] False)"

text \<open>
  \<open>csrf_token\<close> is the form field and \<open>x_csrf_token\<close> the \<open>X-CSRF-Token\<close> header
  (\<open>None\<close> when absent); the header is preferred when it is a non-empty string.
\<close>

definition verify_csrf_token ::
  "runtime \<Rightarrow> CSRFService \<Rightarrow> nat \<Rightarrow> request \<Rightarrow> string option \<Rightarrow> string option
     \<Rightarrow> raised + unit" where
  "verify_csrf_token L C now req csrf_token x_csrf_token =
     (if startswith (url_path req) ''/api/'' then Inr ()
      else
        (let token = py_or x_csrf_token csrf_token
         in case truthy token of
              None \<Rightarrow> Inl (HTTPException 403 ''Invalid or missing CSRF token'')
            | Some t \<Rightarrow>
                and_then (verify_token L C now t) (\<lambda>ok.
                if \<not> ok then Inl (HTTPException 403 ''Invalid or missing CSRF token'')
                else Inr ())))"

section \<open>The user store (app/models.py)\<close>

text \<open>
  The columns of \<open>User\<close> and \<open>ApiKey\<close> that the authentication core reads or
  writes. A time stamp is a number of seconds. A nullable Boolean column is read
  through its truth value only, so \<open>NULL\<close> is \<open>False\<close> here.
\<close>

record user =
  u_id :: uuid
  u_username :: string
  u_email :: string
  u_role :: string
  u_password_hash :: "string option"
  u_is_active :: bool

record api_key =
  ak_id :: uuid
  ak_user_id :: uuid
  ak_key :: string
  ak_name :: "string option"
  ak_last_used_at :: "nat option"
  ak_is_active :: bool

record db =
  users :: "user list"
  api_keys :: "api_key list"

section \<open>Authentication (app/services/auth.py)\<close>

text \<open>The \<open>for\<close> loop over the active keys, left at the first key that verifies.\<close>

fun find_api_key :: "runtime \<Rightarrow> string \<Rightarrow> api_key list \<Rightarrow> raised + api_key option" where
  "find_api_key L x_api_key [] = Inr None"
| "find_api_key L x_api_key (key_obj # active_keys) =
     (case verify_api_key L x_api_key (ak_key key_obj) of
        Inl e \<Rightarrow> Inl e
      | Inr ok \<Rightarrow> if ok then Inr (Some key_obj) else find_api_key L x_api_key active_keys)"

text \<open>
  \<open>api_key_obj.user\<close> is the row of \<open>users\<close> with the key's \<open>user_id\<close>; when there is
  none, it is \<open>None\<close> and reading \<open>user.is_active\<close> raises \<open>AttributeError\<close>. The
  assignment to \<open>last_used_at\<close> followed by \<open>db.commit()\<close> updates the row of that key.
\<close>

definition touch_api_key :: "nat \<Rightarrow> api_key \<Rightarrow> db \<Rightarrow> db" where
  "touch_api_key now api_key_obj d =
     d\<lparr>api_keys :=
         map (\<lambda>k. if ak_id k = ak_id api_key_obj then k\<lparr>ak_last_used_at := Some now\<rparr> else k)
           (api_keys d)\<rparr>"

definition auth_required :: raised where
  "auth_required =
     HTTPException 401
       ''Authentication required. Provide X-API-Key header or valid session.''"

definition get_current_user ::
  "runtime \<Rightarrow> SessionManager \<Rightarrow> nat \<Rightarrow> request \<Rightarrow> string option \<Rightarrow> db \<Rightarrow> raised + user \<times> db" where
  "get_current_user L M now req x_api_key d =
     (case truthy x_api_key of
        Some api_key_value \<Rightarrow>
          (case find_api_key L api_key_value (filter ak_is_active (api_keys d)) of
             Inl e \<Rightarrow> Inl e
           | Inr None \<Rightarrow> Inl (HTTPException 401 ''Invalid API key'')
           | Inr (Some api_key_obj) \<Rightarrow>
               (case find (\<lambda>u. u_id u = ak_user_id api_key_obj) (users d) of
                  None \<Rightarrow> Inl (Raised AttributeError)
                | Some usr \<Rightarrow>
                    if \<not> u_is_active usr
                    then Inl (HTTPException 401 ''User account is inactive'')
                    else Inr (usr, touch_api_key now api_key_obj d)))
      | None \<Rightarrow>
          (case truthy (cookies req ''session'') of
             Some session_token \<Rightarrow>
               (case verify_session L M now session_token of
                  Inl e \<Rightarrow> Inl e
                | Inr None \<Rightarrow> Inl auth_required
                | Inr (Some user_id) \<Rightarrow>
                    (case find (\<lambda>u. u_id u = user_id) (users d) of
                       None \<Rightarrow> Inl auth_required
                     | Some session_user \<Rightarrow>
                         if u_is_active session_user then Inr (session_user, d)
                         else Inl (HTTPException 401 ''User account is inactive'')))
           | None \<Rightarrow> Inl auth_required))"

section \<open>Login (app/utils/auth\_helpers.py)\<close>

record cookie =
  cookie_key :: string
  cookie_value :: string
  cookie_httponly :: bool
  cookie_secure :: bool
  cookie_samesite :: string
  cookie_max_age :: int

text \<open>
  \<open>TemplateResponse name req error status\<close> renders template \<open>name\<close> with the context
  \<open>{"request": req, "error": error}\<close>; \<open>RedirectResponse url status c\<close> is the redirect
  with the cookie \<open>c\<close> set on it.
\<close>

datatype response =
    TemplateResponse string request string nat
  | RedirectResponse string nat cookie

text \<open>
  \<open>secure_cookies\<close> is the setting of that name; \<open>now\<close> is the reading of
  \<open>time.time()\<close>, which the signer truncates to seconds.
\<close>

definition handle_login ::
  "runtime \<Rightarrow> SessionManager \<Rightarrow> bool \<Rightarrow> RateLimiter \<Rightarrow> real \<Rightarrow> request \<Rightarrow> string \<Rightarrow> string
     \<Rightarrow> db \<Rightarrow> string \<Rightarrow> string \<Rightarrow> string \<Rightarrow> bool \<Rightarrow> (raised + response) \<times> RateLimiter" where
  "handle_login L M secure_cookies rl now req username password d template_name redirect_url
       rate_limit_key require_admin =
     (let client_ip = get_client_ip req in
      case is_allowed L rl now (rate_limit_key @ '':'' @ client_ip) 5 900 of
        Inl e \<Rightarrow> (Inl e, rl)
      | Inr ((allowed, remaining), rl') \<Rightarrow>
          if \<not> allowed
          then (Inr (TemplateResponse template_name req
                  ''Too many login attempts. Please try again in 15 minutes.'' 429), rl')
          else
            (case find (\<lambda>u. u_username u = username) (users d) of
               None \<Rightarrow>
                 (Inr (TemplateResponse template_name req ''Invalid username or password'' 401),
                  rl')
             | Some usr \<Rightarrow>
                 (case (case truthy (u_password_hash usr) of
                          None \<Rightarrow> Inr False
                        | Some password_hash \<Rightarrow> verify_password L password password_hash) of
                    Inl e \<Rightarrow> (Inl e, rl')
                  | Inr verified \<Rightarrow>
                      if \<not> verified
                      then (Inr (TemplateResponse template_name req
                              ''Invalid username or password'' 401), rl')
                      else if require_admin \<and> u_role usr \<noteq> ''admin''
                      then (Inr (TemplateResponse template_name req
                              ''Admin access required'' 403), rl')
                      else if \<not> u_is_active usr
                      then (Inr (TemplateResponse template_name req
                              ''Account is inactive'' 403), rl')
                      else
                        (case create_session L M (nat \<lfloor>now\<rfloor>) (u_id usr) of
                           Inl e \<Rightarrow> (Inl e, rl')
                         | Inr session_token \<Rightarrow>
                             (Inr (RedirectResponse redirect_url 303
                                \<lparr>cookie_key = ''session'', cookie_value = session_token,
                                 cookie_httponly = True, cookie_secure = secure_cookies,
                                 cookie_samesite = ''lax'',
                                 cookie_max_age = expire_hours M * 3600\<rparr>),
                              rl')))))"

section \<open>Search (app/services/search.py)\<close>

text \<open>
  The values that a \<open>filters\<close> dictionary of type \<open>dict[str, Any]\<close> holds here:
  \<open>None\<close>, Booleans, integers and strings, with their truth value, \<open>str()\<close> and
  \<open>int()\<close>. Converting between integers and their decimal text is done by the
  interpreter (\<open>int(s)\<close> raises \<open>ValueError\<close> on a string that is no integer
  literal, and the conversions of very long numbers can raise \<open>ValueError\<close> too);
  both conversions are parameters of the model.
\<close>

datatype pyval = PyNone | PyBool bool | PyInt int | PyStr string

record builtins =
  int_of_str :: "string \<Rightarrow> raised + int"
  str_of_int :: "int \<Rightarrow> raised + string"

fun py_truthy :: "pyval \<Rightarrow> bool" where
  "py_truthy PyNone = False"
| "py_truthy (PyBool b) = b"
| "py_truthy (PyInt n) = (n \<noteq> 0)"
| "py_truthy (PyStr s) = (s \<noteq> [])"

fun py_str :: "builtins \<Rightarrow> pyval \<Rightarrow> raised + string" where
  "py_str B PyNone = Inr ''None''"
| "py_str B (PyBool b) = Inr (if b then ''True'' else ''False'')"
| "py_str B (PyInt n) = str_of_int B n"
| "py_str B (PyStr s) = Inr s"

fun py_int :: "builtins \<Rightarrow> pyval \<Rightarrow> raised + int" where
  "py_int B PyNone = Inl (Raised TypeError)"
| "py_int B (PyBool b) = Inr (if b then 1 else 0)"
| "py_int B (PyInt n) = Inr n"
| "py_int B (PyStr s) = int_of_str B s"

text \<open>
  A dictionary is the list of its items; \<open>d.get(k)\<close> is \<open>None\<close> for a missing key.
  The double and the single quote are the characters 34 and 39.
\<close>

definition dict_get :: "(string \<times> pyval) list \<Rightarrow> string \<Rightarrow> pyval" where
  "dict_get d k = (case map_of d k of None \<Rightarrow> PyNone | Some v \<Rightarrow> v)"

definition dquote :: char where
  "dquote = CHR 0x22"

definition squote :: char where
  "squote = CHR 0x27"

record search_params =
  sp_limit :: int
  sp_offset :: int
  sp_filter :: "string list option"

text \<open>
  The three blocks under \<open>if filters:\<close>, each taking the filter array built so far
  and returning it, extended or not: the hostname filter, the username filter and
  the exit-code filter with its \<open>try\<close> and \<open>except (ValueError, TypeError): pass\<close>.
\<close>

definition add_hostname ::
  "builtins \<Rightarrow> (string \<times> pyval) list \<Rightarrow> string list \<Rightarrow> raised + string list" where
  "add_hostname B fs filter_array =
     (if py_truthy (dict_get fs ''hostname'')
      then and_then (py_str B (dict_get fs ''hostname'')) (\<lambda>s.
        let hostname = strip s;
            hostname_escaped = replace_empty squote (replace_empty dquote hostname)
        in Inr (if hostname_escaped \<noteq> []
                then filter_array @ [''hostname = '' @ [dquote] @ hostname_escaped @ [dquote]]
                else filter_array))
      else Inr filter_array)"

definition add_username ::
  "builtins \<Rightarrow> (string \<times> pyval) list \<Rightarrow> string list \<Rightarrow> raised + string list" where
  "add_username B fs filter_array =
     (if py_truthy (dict_get fs ''username'')
      then and_then (py_str B (dict_get fs ''username'')) (\<lambda>s.
        let username = strip s;
            username_escaped = replace_empty squote (replace_empty dquote username)
        in Inr (if username_escaped \<noteq> []
                then filter_array @ [''username = '' @ [dquote] @ username_escaped @ [dquote]]
                else filter_array))
      else Inr filter_array)"

definition add_exit_code ::
  "builtins \<Rightarrow> (string \<times> pyval) list \<Rightarrow> string list \<Rightarrow> raised + string list" where
  "add_exit_code B fs filter_array =
     (if dict_get fs ''exit_code'' \<noteq> PyNone
      then try_except
             (and_then (py_int B (dict_get fs ''exit_code'')) (\<lambda>exit_code.
              and_then (str_of_int B exit_code) (\<lambda>s.
              Inr (filter_array @ [''exit_code = '' @ s]))))
             [ValueError, TypeError] filter_array
      else Inr filter_array)"

text \<open>
  The part of \<open>SearchService.search\<close> that builds \<open>search_params\<close>: the filter array
  starts with the user conjunct; \<open>if filters:\<close> holds for a dictionary that is neither
  \<open>None\<close> nor empty.
\<close>

definition build_search_params ::
  "builtins \<Rightarrow> string \<Rightarrow> (string \<times> pyval) list option \<Rightarrow> int \<Rightarrow> int
     \<Rightarrow> raised + search_params" where
  "build_search_params B user_id filters limit offset =
     (let filter_array = [''user_id = '' @ [dquote] @ user_id @ [dquote]] in
      and_then
        (case filters of
           None \<Rightarrow> Inr filter_array
         | Some fs \<Rightarrow>
             if fs = [] then Inr filter_array
             else and_then (add_hostname B fs filter_array) (\<lambda>filter_array.
                  and_then (add_username B fs filter_array) (\<lambda>filter_array.
                  add_exit_code B fs filter_array)))
        (\<lambda>filter_array.
           Inr \<lparr>sp_limit = limit, sp_offset = offset,
                sp_filter = (if filter_array \<noteq> [] then Some filter_array else None)\<rparr>))"

text \<open>
  The index is the Meilisearch client's index object, \<open>None\<close> when the service could
  not reach it; its \<open>search\<close> method returns a dictionary that may hold \<open>hits\<close>,
  \<open>totalHits\<close> and \<open>nbHits\<close>.
\<close>

record 'h raw_results =
  raw_hits :: "'h list option"
  raw_totalHits :: "nat option"
  raw_nbHits :: "nat option"

record 'h search_result =
  res_hits :: "'h list"
  res_total :: nat
  res_query :: "string option"
  res_limit :: "int option"
  res_offset :: "int option"

definition empty_result :: "'h search_result" where
  "empty_result =
     \<lparr>res_hits = [], res_total = 0, res_query = None, res_limit = None, res_offset = None\<rparr>"

text \<open>\<open>a or b\<close> for counts that may be missing: \<open>a\<close> unless it is \<open>None\<close> or 0.\<close>

definition count_or :: "nat option \<Rightarrow> nat \<Rightarrow> nat" where
  "count_or a b = (case a of None \<Rightarrow> b | Some n \<Rightarrow> if n = 0 then b else n)"

definition format_results :: "string \<Rightarrow> int \<Rightarrow> int \<Rightarrow> 'h raw_results \<Rightarrow> 'h search_result" where
  "format_results query limit offset results =
     (let hits = (case raw_hits results of None \<Rightarrow> [] | Some hs \<Rightarrow> hs)
      in \<lparr>res_hits = hits,
          res_total = count_or (raw_totalHits results)
                        (count_or (raw_nbHits results) (length hits)),
          res_query = Some query, res_limit = Some limit, res_offset = Some offset\<rparr>)"

definition search ::
  "builtins \<Rightarrow> (string \<Rightarrow> search_params \<Rightarrow> raised + 'h raw_results) option \<Rightarrow> string
     \<Rightarrow> string \<Rightarrow> (string \<times> pyval) list option \<Rightarrow> int \<Rightarrow> int
     \<Rightarrow> raised + 'h search_result" where
  "search B index query user_id filters limit offset =
     (case index of
        None \<Rightarrow> Inr empty_result
      | Some index_search \<Rightarrow>
          try_except
            (and_then (build_search_params B user_id filters limit offset) (\<lambda>search_params.
             and_then (index_search query search_params) (\<lambda>results.
             Inr (format_results query limit offset results))))
            [Exception] empty_result)"

section \<open>An instance of the library functions\<close>

text \<open>
  A small runtime and signer that meet the promises above, to evaluate the services
  at concrete inputs. The codec is the identity (ASCII), a hash is \<open>$2b$\<close> followed by
  the secret, a UUID is written in unary, and a signed value is the clock reading in
  unary, a dot, and the value. They stand for bcrypt and itsdangerous in examples
  only.
\<close>

definition ref_checkpw :: "string \<Rightarrow> string \<Rightarrow> raised + bool" where
  "ref_checkpw password hashed =
     (if take 4 hashed = ''$2b$'' then Inr (drop 4 hashed = password)
      else Inl (Raised ValueError))"

definition ref_UUID :: "string \<Rightarrow> raised + uuid" where
  "ref_UUID s =
     (if list_all (\<lambda>c. c = CHR ''u'') s then Inr (word_of_nat (length s))
      else Inl (Raised ValueError))"

text \<open>
  The subtraction stands for the one of IEEE doubles where the integer and the exact
  difference are below \<open>2^54\<close> in magnitude and a difference below \<open>2^53\<close> is a
  double: there the difference is exact below \<open>2^53\<close> and rounded to the nearest even
  number, ties to the multiple of four, from \<open>2^53\<close> on. An integer that rounds to
  \<open>2^1024\<close> or more does not convert.
\<close>

definition round_ties_even :: "real \<Rightarrow> int" where
  "round_ties_even x =
     (let f = \<lfloor>x\<rfloor>
      in if x - of_int f < 1 / 2 then f
         else if x - of_int f > 1 / 2 then f + 1
         else if even f then f else f + 1)"

definition ref_float_sub_int :: "real \<Rightarrow> int \<Rightarrow> raised + pyfloat" where
  "ref_float_sub_int x n =
     (if \<bar>n\<bar> \<ge> 2 ^ 1024 - 2 ^ 970 then Inl (Raised OverflowError)
      else (let d = x - of_int n
            in if \<bar>d\<bar> < 2 ^ 53 then Inr (Finite d)
               else if \<bar>d\<bar> < 2 ^ 54
               then Inr (Finite (2 * of_int (round_ties_even (d / 2))))
               else Inr (Finite d)))"

definition ref_runtime :: runtime where
  "ref_runtime =
     \<lparr>str_encode = Inr, bytes_decode = Inr, checkpw = ref_checkpw,
      uuid_str = (\<lambda>u. replicate (unat u) CHR ''u''), UUID = ref_UUID,
      float_sub_int = ref_float_sub_int\<rparr>"

definition ref_unsign :: "nat \<Rightarrow> string \<Rightarrow> int \<Rightarrow> raised + string" where
  "ref_unsign now s max_age =
     (let signed_at = length (takeWhile (\<lambda>c. c = CHR ''1'') s)
      in case dropWhile (\<lambda>c. c = CHR ''1'') s of
           [] \<Rightarrow> Inl (Raised BadSignature)
         | c # v \<Rightarrow>
             if c \<noteq> CHR ''.'' then Inl (Raised BadSignature)
             else if int now - int signed_at > max_age \<or> now < signed_at
             then Inl (Raised SignatureExpired)
             else Inr v)"

definition ref_signer :: TimestampSigner where
  "ref_signer =
     \<lparr>sign = (\<lambda>t v. replicate t CHR ''1'' @ CHR ''.'' # v), unsign = ref_unsign\<rparr>"

text \<open>
  Decimal text of integers without a length limit, and its reading of an optional
  minus sign followed by digits, as an instance of the two conversions.
\<close>

fun decimal :: "nat \<Rightarrow> string" where
  "decimal n =
     (if n < 10 then [char_of (48 + n)]
      else decimal (n div 10) @ [char_of (48 + n mod 10)])"

definition is_digit :: "char \<Rightarrow> bool" where
  "is_digit c = (48 \<le> (of_char c :: nat) \<and> (of_char c :: nat) \<le> 57)"

definition digits_value :: "string \<Rightarrow> nat" where
  "digits_value s = foldl (\<lambda>acc c. 10 * acc + (of_char c - 48)) 0 s"

definition ref_int_of_str :: "string \<Rightarrow> raised + int" where
  "ref_int_of_str s =
     (case s of
        [] \<Rightarrow> Inl (Raised ValueError)
      | c # cs \<Rightarrow>
          if c = CHR ''-'' \<and> cs \<noteq> [] \<and> list_all is_digit cs then Inr (- int (digits_value cs))
          else if list_all is_digit s then Inr (int (digits_value s))
          else Inl (Raised ValueError))"

definition ref_builtins :: builtins where
  "ref_builtins =
     \<lparr>int_of_str = ref_int_of_str,
      str_of_int = (\<lambda>n. Inr (if n < 0 then CHR ''-'' # decimal (nat (- n))
                             else decimal (nat n)))\<rparr>"

text \<open>
  A user store for the examples: \<open>alice\<close> is active, has no password and owns one
  active API key with the plain value \<open>secret\<close>; \<open>bob\<close> is inactive, is no
  administrator and has the password \<open>hunter2\<close>.
\<close>

definition ex_manager :: SessionManager where
  "ex_manager = \<lparr>signer = ref_signer, expire_hours = 24\<rparr>"

definition ex_alice :: user where
  "ex_alice =
     \<lparr>u_id = 3, u_username = ''alice'', u_email = ''alice@example.com'', u_role = ''user'',
      u_password_hash = None, u_is_active = True\<rparr>"

definition ex_bob :: user where
  "ex_bob =
     \<lparr>u_id = 4, u_username = ''bob'', u_email = ''bob@example.com'', u_role = ''user'',
      u_password_hash = Some ''$2b$hunter2'', u_is_active = False\<rparr>"

definition ex_key :: api_key where
  "ex_key =
     \<lparr>ak_id = 1, ak_user_id = 3, ak_key = ''$2b$secret'', ak_name = None,
      ak_last_used_at = None, ak_is_active = True\<rparr>"

definition ex_db :: db where
  "ex_db = \<lparr>users = [ex_alice, ex_bob], api_keys = [ex_key]\<rparr>"

section \<open>Verification\<close>

subsection \<open>Rate limiter\<close>

lemma filter_list_all_id: "list_all P xs \<Longrightarrow> filter P xs = xs"
  by (induction xs) auto

lemma within_window_append:
  "within_window L w (xs @ [t]) \<Longrightarrow> list_all (\<lambda>u. in_window L w u t) xs"
  by (induction xs) auto

lemma within_window_last:
  "within_window L w (xs @ [t]) \<Longrightarrow> cutoff_defined L w t"
  by (induction xs) auto

lemma within_window_prefix:
  "within_window L w (xs @ ys) \<Longrightarrow> within_window L w xs"
  by (induction xs) auto

lemma cutoff_definedE:
  assumes "cutoff_defined L w t"
  obtains c where "float_sub_int L t w = Inr c"
  using assms by (cases "float_sub_int L t w") (simp_all add: cutoff_defined_def)

lemma in_window_float_gt:
  "float_sub_int L t w = Inr c \<Longrightarrow> in_window L w u t = float_gt u c"
  by (simp add: in_window_def)

lemma is_allowed_under:
  assumes "cutoff_defined L w t"
    and "list_all (\<lambda>u. in_window L w u t) (requests rl k)"
    and "int (length (requests rl k)) < n"
  shows "is_allowed L rl t k n w =
           Inr ((True, n - int (length (requests rl k)) - 1),
                rl\<lparr>requests := (requests rl)(k := requests rl k @ [t])\<rparr>)"
proof -
  from assms(1) obtain c where c: "float_sub_int L t w = Inr c"
    by (rule cutoff_definedE)
  have "list_all (\<lambda>u. float_gt u c) (requests rl k)"
    using assms(2) by (simp add: in_window_float_gt [OF c])
  then have "filter (\<lambda>u. float_gt u c) (requests rl k) = requests rl k"
    by (rule filter_list_all_id)
  then show ?thesis
    using assms(3) by (simp add: is_allowed_def and_then_def c Let_def)
qed

lemma is_allowed_at_limit:
  assumes "cutoff_defined L w t"
    and "list_all (\<lambda>u. in_window L w u t) (requests rl k)"
    and "int (length (requests rl k)) \<ge> n"
  shows "is_allowed L rl t k n w =
           Inr ((False, 0), rl\<lparr>requests := (requests rl)(k := requests rl k)\<rparr>)"
proof -
  from assms(1) obtain c where c: "float_sub_int L t w = Inr c"
    by (rule cutoff_definedE)
  have "list_all (\<lambda>u. float_gt u c) (requests rl k)"
    using assms(2) by (simp add: in_window_float_gt [OF c])
  then have "filter (\<lambda>u. float_gt u c) (requests rl k) = requests rl k"
    by (rule filter_list_all_id)
  then show ?thesis
    using assms(3) by (simp add: is_allowed_def and_then_def c Let_def)
qed

lemma calls_allowed:
  "int (length (requests rl k)) + int (length ts) \<le> n \<Longrightarrow>
   within_window L w (requests rl k @ ts) \<Longrightarrow>
   \<exists>rl'. is_allowed_calls L rl k n w ts =
     Inr (map (\<lambda>i. (True, n - int (length (requests rl k)) - int i)) [1..<Suc (length ts)], rl')
     \<and> requests rl' = (requests rl)(k := requests rl k @ ts)"
proof (induction ts arbitrary: rl)
  case Nil
  then show ?case by simp
next
  case (Cons t ts)
  let ?h = "requests rl k"
  let ?rl' = "rl\<lparr>requests := (requests rl)(k := ?h @ [t])\<rparr>"
  have ww: "within_window L w (?h @ [t])"
    using Cons.prems(2) within_window_prefix [of L w "?h @ [t]" ts] by simp
  have step: "is_allowed L rl t k n w = Inr ((True, n - int (length ?h) - 1), ?rl')"
    using Cons.prems(1) within_window_append [OF ww] within_window_last [OF ww]
    by (intro is_allowed_under) auto
  have h': "requests ?rl' k = ?h @ [t]" by simp
  have IH: "\<exists>rl2. is_allowed_calls L ?rl' k n w ts =
     Inr (map (\<lambda>i. (True, n - int (length (requests ?rl' k)) - int i)) [1..<Suc (length ts)], rl2)
     \<and> requests rl2 = (requests ?rl')(k := requests ?rl' k @ ts)"
    using Cons.prems by (intro Cons.IH) (simp_all add: h')
  then obtain rl2 where
    c: "is_allowed_calls L ?rl' k n w ts =
     Inr (map (\<lambda>i. (True, n - int (length (?h @ [t])) - int i)) [1..<Suc (length ts)], rl2)"
    and r2: "requests rl2 = (requests rl)(k := ?h @ t # ts)"
    using h' by auto
  have m: "map (\<lambda>i. (True, n - int (length ?h) - int i)) [1..<Suc (Suc (length ts))]
         = (True, n - int (length ?h) - 1) #
           map (\<lambda>i. (True, n - int (length (?h @ [t])) - int i)) [1..<Suc (length ts)]"
  proof -
    have "[1..<Suc (Suc (length ts))] = 1 # map Suc [1..<Suc (length ts)]"
      by (metis One_nat_def map_Suc_upt upt_conv_Cons zero_less_Suc Suc_less_eq)
    then show ?thesis by (simp add: comp_def algebra_simps)
  qed
  have e: "is_allowed_calls L rl k n w (t # ts) =
     Inr ((True, n - int (length ?h) - 1) #
          map (\<lambda>i. (True, n - int (length (?h @ [t])) - int i)) [1..<Suc (length ts)], rl2)"
    using step c by simp
  show ?case
  proof (intro exI conjI)
    show "is_allowed_calls L rl k n w (t # ts) =
      Inr (map (\<lambda>i. (True, n - int (length ?h) - int i)) [1..<Suc (length (t # ts))], rl2)"
      by (simp only: e length_Cons m)
    show "requests rl2 = (requests rl)(k := ?h @ t # ts)"
      by (rule r2)
  qed
qed

lemma is_allowed_calls_append:
  "is_allowed_calls L rl k n w xs = Inr (rs, rl') \<Longrightarrow>
   is_allowed_calls L rl' k n w ys = Inr (rs', rl'') \<Longrightarrow>
   is_allowed_calls L rl k n w (xs @ ys) = Inr (rs @ rs', rl'')"
  by (induction xs arbitrary: rl rs) (auto split: sum.splits prod.splits)

lemma is_allowed_denied_no_record:
  assumes "float_sub_int L now w = Inr c"
    and "is_allowed L rl now k n w = Inr ((False, r), rl')"
  shows "r = 0 \<and> requests rl' k = filter (\<lambda>u. float_gt u c) (requests rl k)"
  using assms by (auto simp add: is_allowed_def and_then_def Let_def split: if_splits)

lemma is_allowed_length_bound:
  assumes "int (length (requests rl k)) \<le> n"
    and "is_allowed L rl now k n w = Inr (r, rl')"
  shows "int (length (requests rl' k)) \<le> n"
proof -
  obtain c where c: "float_sub_int L now w = Inr c"
    using assms(2) by (cases "float_sub_int L now w") (simp_all add: is_allowed_def and_then_def)
  define reqs where "reqs = filter (\<lambda>u. float_gt u c) (requests rl k)"
  have le: "int (length reqs) \<le> n"
    using assms(1) length_filter_le [of "\<lambda>u. float_gt u c" "requests rl k"]
    unfolding reqs_def by linarith
  show ?thesis
  proof (cases "int (length reqs) \<ge> n")
    case True
    then have "requests rl' k = reqs"
      using assms(2) by (auto simp add: is_allowed_def and_then_def c Let_def reqs_def)
    then show ?thesis using le by simp
  next
    case False
    then have "requests rl' k = reqs @ [now]"
      using assms(2) by (auto simp add: is_allowed_def and_then_def c Let_def reqs_def)
    then show ?thesis using False by simp
  qed
qed

text \<open>
  Claim C4, amended. Let the window be one for which the cutoff \<open>now - window_seconds\<close>
  can be computed in float arithmetic, and let the clock readings of the calls lie
  within one window as the code computes it: each reading is later than the cutoff
  of every later call. Then, from an empty history for the key, calls of
  \<open>is_allowed\<close> with limit \<open>n \<ge> 1\<close> at \<open>n\<close> readings \<open>ts\<close> and then at \<open>t\<close> return
  \<open>(True, n - i)\<close> at the \<open>i\<close>-th call and \<open>(False, 0)\<close> at the last one, and the
  history then holds exactly the \<open>n\<close> readings of the allowed calls. A denied call
  returns \<open>(False, 0)\<close> and leaves the pruned history without a new entry, and a
  history of at most \<open>n\<close> entries has at most \<open>n\<close> entries after any call.
\<close>

theorem is_allowed_limit:
  assumes "1 \<le> n" and "requests rl k = []" and "int (length ts) = n"
    and "within_window L w (ts @ [t])"
  shows "(\<exists>rl'. is_allowed_calls L rl k n w (ts @ [t]) =
             Inr (map (\<lambda>i. (True, n - int i)) [1..<Suc (length ts)] @ [(False, 0)], rl')
           \<and> requests rl' k = ts)
       \<and> (\<forall>rl0 now c r rl1. float_sub_int L now w = Inr c \<and>
             is_allowed L rl0 now k n w = Inr ((False, r), rl1) \<longrightarrow>
             r = 0 \<and> requests rl1 k = filter (\<lambda>u. float_gt u c) (requests rl0 k))
       \<and> (\<forall>rl0 now r rl1. int (length (requests rl0 k)) \<le> n \<and>
             is_allowed L rl0 now k n w = Inr (r, rl1) \<longrightarrow>
             int (length (requests rl1 k)) \<le> n)"
proof -
  have ww: "within_window L w (requests rl k @ ts)"
    using assms(2,4) within_window_prefix [of L w ts "[t]"] by simp
  obtain rl1 where run: "is_allowed_calls L rl k n w ts =
      Inr (map (\<lambda>i. (True, n - int i)) [1..<Suc (length ts)], rl1)"
    and hist: "requests rl1 = (requests rl)(k := ts)"
    using calls_allowed [of rl k ts n L w] assms(2,3) ww by auto
  have hk: "requests rl1 k = ts"
    using hist by simp
  have last: "is_allowed L rl1 t k n w =
      Inr ((False, 0), rl1\<lparr>requests := (requests rl1)(k := requests rl1 k)\<rparr>)"
    using assms(3,4) hk within_window_append [of L w ts t] within_window_last [of L w ts t]
    by (intro is_allowed_at_limit) simp_all
  have one: "is_allowed_calls L rl1 k n w [t] =
      Inr ([(False, 0)], rl1\<lparr>requests := (requests rl1)(k := requests rl1 k)\<rparr>)"
    by (simp add: last)
  have all: "is_allowed_calls L rl k n w (ts @ [t]) =
      Inr (map (\<lambda>i. (True, n - int i)) [1..<Suc (length ts)] @ [(False, 0)],
           rl1\<lparr>requests := (requests rl1)(k := requests rl1 k)\<rparr>)"
    by (rule is_allowed_calls_append [OF run one])
  have first: "\<exists>rl'. is_allowed_calls L rl k n w (ts @ [t]) =
             Inr (map (\<lambda>i. (True, n - int i)) [1..<Suc (length ts)] @ [(False, 0)], rl')
           \<and> requests rl' k = ts"
    using all hk by (intro exI [of _ "rl1\<lparr>requests := (requests rl1)(k := requests rl1 k)\<rparr>"]) simp
  show ?thesis
    using first is_allowed_denied_no_record is_allowed_length_bound by blast
qed

lemma ref_float_sub_int_exact:
  assumes "\<bar>n\<bar> < 2 ^ 53" and "\<bar>x - of_int n\<bar> < 2 ^ 53"
  shows "ref_float_sub_int x n = Inr (Finite (x - of_int n))"
proof -
  have "(2::int) ^ 53 \<le> 2 ^ 1024 - 2 ^ 970" by simp
  then have "\<not> \<bar>n\<bar> \<ge> 2 ^ 1024 - 2 ^ 970" using assms(1) by linarith
  then show ?thesis
    using assms(2) by (simp add: ref_float_sub_int_def Let_def)
qed

lemma ref_in_window_900:
  assumes "\<bar>u - 900\<bar> < 2 ^ 53"
  shows "in_window ref_runtime 900 t u = (t > u - 900)"
    and "cutoff_defined ref_runtime 900 u"
  using ref_float_sub_int_exact [of 900 u] assms
  by (simp_all add: in_window_def cutoff_defined_def ref_runtime_def)

theorem is_allowed_limit_witness:
  "(1::int) \<le> 3 \<and> requests \<lparr>requests = \<lambda>k. []\<rparr> ''login:10.0.0.1'' = []
   \<and> int (length [100, 101, 102.5 :: real]) = 3
   \<and> within_window ref_runtime 900 ([100, 101, 102.5] @ [103])
   \<and> (case is_allowed_calls ref_runtime \<lparr>requests = \<lambda>k. []\<rparr> ''login:10.0.0.1'' 3 900
            ([100, 101, 102.5] @ [103]) of
         Inl e \<Rightarrow> None
       | Inr (rs, rl') \<Rightarrow> Some (rs, requests rl' ''login:10.0.0.1''))
       = Some ([(True, 2), (True, 1), (True, 0), (False, 0)], [100, 101, 102.5])"
proof -
  have h: "within_window ref_runtime 900 ([100, 101, 102.5] @ [103])"
    by (simp add: ref_in_window_900)
  have u: "map (\<lambda>i. (True, 3 - int i)) [1..<Suc (length [100, 101, 102.5 :: real])]
           = [(True, 2), (True, 1), (True, 0)]"
    by (simp add: upt_rec)
  have "\<exists>rl'. is_allowed_calls ref_runtime \<lparr>requests = \<lambda>k. []\<rparr> ''login:10.0.0.1'' 3 900
            ([100, 101, 102.5] @ [103]) =
           Inr ([(True, 2), (True, 1), (True, 0), (False, 0)], rl')
         \<and> requests rl' ''login:10.0.0.1'' = [100, 101, 102.5]"
    using is_allowed_limit [of 3 "\<lparr>requests = \<lambda>k. []\<rparr>" "''login:10.0.0.1''"
        "[100, 101, 102.5]" ref_runtime 900 103] h u
    by simp
  then obtain rl' where
    "is_allowed_calls ref_runtime \<lparr>requests = \<lambda>k. []\<rparr> ''login:10.0.0.1'' 3 900
            ([100, 101, 102.5] @ [103]) =
           Inr ([(True, 2), (True, 1), (True, 0), (False, 0)], rl')"
    and "requests rl' ''login:10.0.0.1'' = [100, 101, 102.5]"
    by blast
  then show ?thesis
    using h by simp
qed

text \<open>
  Claim C4 as stated fails in float arithmetic. For the window \<open>10^400\<close> the first
  call raises \<open>OverflowError\<close> instead of returning. At the clock reading \<open>2^53 + 4\<close>
  with a window of one second, the cutoff \<open>now - 1\<close> rounds to \<open>now\<close>: of two calls at
  that reading with limit 1, the second prunes the first and is allowed too. And for a
  key whose history already holds a request of the window, the first call with
  limit 1 is denied.
\<close>

theorem is_allowed_float_counterexample:
  "is_allowed ref_runtime \<lparr>requests = \<lambda>k. []\<rparr> 1700000000 ''login:10.0.0.1'' 1 (10 ^ 400)
     = Inl (Raised OverflowError) \<and>
   is_allowed ref_runtime \<lparr>requests = (\<lambda>k. [])(''login:10.0.0.1'' := [99])\<rparr> 100
       ''login:10.0.0.1'' 1 900
     = Inr ((False, 0), \<lparr>requests = (\<lambda>k. [])(''login:10.0.0.1'' := [99])\<rparr>) \<and>
   (2 ^ 53 + 4 :: real) > (2 ^ 53 + 4) - real_of_int 1 \<and>
   (case is_allowed_calls ref_runtime \<lparr>requests = \<lambda>k. []\<rparr> ''login:10.0.0.1'' 1 1
           [2 ^ 53 + 4, 2 ^ 53 + 4] of
      Inl e \<Rightarrow> None
    | Inr (rs, rl') \<Rightarrow> Some rs)
     = Some [(True, 0), (True, 0)]"
proof -
  have big: "\<bar>10 ^ 400 :: int\<bar> \<ge> 2 ^ 1024 - 2 ^ 970"
    by simp
  have a: "is_allowed ref_runtime \<lparr>requests = \<lambda>k. []\<rparr> 1700000000 ''login:10.0.0.1'' 1
      (10 ^ 400) = Inl (Raised OverflowError)"
    using big by (simp add: is_allowed_def and_then_def ref_runtime_def ref_float_sub_int_def)
  have c: "ref_float_sub_int 9007199254740996 1 = Inr (Finite 9007199254740996)"
    by (simp add: ref_float_sub_int_def round_ties_even_def Let_def)
  have s1: "is_allowed ref_runtime \<lparr>requests = \<lambda>k. []\<rparr> 9007199254740996
      ''login:10.0.0.1'' 1 1
      = Inr ((True, 0), \<lparr>requests = (\<lambda>k. [])(''login:10.0.0.1'' := [9007199254740996])\<rparr>)"
    by (simp add: is_allowed_def and_then_def ref_runtime_def c)
  have s2: "is_allowed ref_runtime
      \<lparr>requests = (\<lambda>k. [])(''login:10.0.0.1'' := [9007199254740996])\<rparr> 9007199254740996
      ''login:10.0.0.1'' 1 1
      = Inr ((True, 0), \<lparr>requests = (\<lambda>k. [])(''login:10.0.0.1'' := [9007199254740996])\<rparr>)"
    by (simp add: is_allowed_def and_then_def ref_runtime_def c)
  have p: "(2 ^ 53 + 4 :: real) = 9007199254740996"
    by simp
  have f: "ref_float_sub_int 100 900 = Inr (Finite (100 - of_int 900))"
    by (rule ref_float_sub_int_exact) simp_all
  have h: "is_allowed ref_runtime \<lparr>requests = (\<lambda>k. [])(''login:10.0.0.1'' := [99])\<rparr> 100
       ''login:10.0.0.1'' 1 900
     = Inr ((False, 0), \<lparr>requests = (\<lambda>k. [])(''login:10.0.0.1'' := [99])\<rparr>)"
    using f by (simp add: is_allowed_def and_then_def ref_runtime_def)
  have run: "is_allowed_calls ref_runtime \<lparr>requests = \<lambda>k. []\<rparr> ''login:10.0.0.1'' 1 1
           [9007199254740996, 9007199254740996] =
      Inr ([(True, 0), (True, 0)],
           \<lparr>requests = (\<lambda>k. [])(''login:10.0.0.1'' := [9007199254740996])\<rparr>)"
    by (simp only: is_allowed_calls.simps s1 s2 sum.case prod.case)
  show ?thesis
    using a h by (simp only: p run) simp
qed

subsection \<open>Credential hashing\<close>

lemma isinstance_Exception: "isinstance e Exception"
proof (cases e)
  case (Raised c)
  then show ?thesis by (cases c) (simp_all add: issubclass_def)
next
  case (HTTPException s m)
  then show ?thesis by simp
qed

lemma try_except_Exception:
  "try_except body [Exception] v = Inr (case body of Inl e \<Rightarrow> v | Inr x \<Rightarrow> x)"
  by (simp add: try_except_def except_def isinstance_Exception split: sum.splits)

lemma verify_password_total:
  "verify_password L p h =
     Inr (case and_then (str_encode L p) (\<lambda>pb. and_then (str_encode L h) (\<lambda>hb.
                 checkpw L pb hb)) of Inl e \<Rightarrow> False | Inr r \<Rightarrow> r)"
  by (simp add: verify_password_def try_except_Exception and_then_def split: sum.splits)

lemma verify_api_key_total:
  "verify_api_key L p h =
     Inr (case and_then (str_encode L p) (\<lambda>pb. and_then (str_encode L h) (\<lambda>hb.
                 checkpw L pb hb)) of Inl e \<Rightarrow> False | Inr r \<Rightarrow> r)"
  by (simp add: verify_api_key_def try_except_Exception and_then_def split: sum.splits)

text \<open>
  Claim C9. For every secret and every hash string, \<open>verify_password\<close> and
  \<open>verify_api_key\<close> return a Boolean and raise nothing; whenever encoding either
  argument or \<open>bcrypt.checkpw\<close> raises (a malformed or non-bcrypt hash), both return
  \<open>False\<close>.
\<close>

theorem verify_never_raises:
  "(\<exists>b. verify_password L secret hash_string = Inr b) \<and>
   (\<exists>b. verify_api_key L secret hash_string = Inr b) \<and>
   (\<forall>e. and_then (str_encode L secret) (\<lambda>pb. and_then (str_encode L hash_string) (\<lambda>hb.
            checkpw L pb hb)) = Inl e \<longrightarrow>
        verify_password L secret hash_string = Inr False \<and>
        verify_api_key L secret hash_string = Inr False)"
  by (simp add: verify_password_total verify_api_key_total)

theorem verify_never_raises_witness:
  "and_then (str_encode ref_runtime ''hunter2'') (\<lambda>pb.
     and_then (str_encode ref_runtime ''not-a-valid-hash'') (\<lambda>hb.
       checkpw ref_runtime pb hb)) = Inl (Raised ValueError) \<and>
   verify_password ref_runtime ''hunter2'' ''not-a-valid-hash'' = Inr False \<and>
   verify_api_key ref_runtime ''hunter2'' ''not-a-valid-hash'' = Inr False"
proof -
  have h: "and_then (str_encode ref_runtime ''hunter2'') (\<lambda>pb.
     and_then (str_encode ref_runtime ''not-a-valid-hash'') (\<lambda>hb.
       checkpw ref_runtime pb hb)) = Inl (Raised ValueError)"
    by (simp add: and_then_def ref_runtime_def ref_checkpw_def)
  show ?thesis
    using verify_never_raises [of ref_runtime "''hunter2''" "''not-a-valid-hash''"] h
    by blast
qed

subsection \<open>Session verification\<close>

lemma except_session_BadSignature:
  "isinstance e BadSignature \<Longrightarrow> except [BadSignature, SignatureExpired, ValueError] e"
  by (simp add: except_def)

lemma except_session_Unicode:
  "except [BadSignature, SignatureExpired, ValueError] (Raised UnicodeEncodeError)"
  "except [BadSignature, SignatureExpired, ValueError] (Raised UnicodeDecodeError)"
  "except [BadSignature, SignatureExpired, ValueError] (Raised ValueError)"
  by (simp_all add: except_def issubclass_def)

lemma verify_session_cases:
  assumes "codec_raises L" and "uuid_raises L" and "signer_raises (signer M)"
  shows "verify_session L M now tok =
    Inr (case str_encode L tok of
           Inl e \<Rightarrow> None
         | Inr tb \<Rightarrow>
            (case unsign (signer M) now tb (expire_hours M * 3600) of
               Inl e \<Rightarrow> None
             | Inr p \<Rightarrow>
                (case bytes_decode L p of
                   Inl e \<Rightarrow> None
                 | Inr s \<Rightarrow> (case UUID L s of Inl e \<Rightarrow> None | Inr u \<Rightarrow> Some u))))"
proof (cases "str_encode L tok")
  case (Inl e)
  then have "e = Raised UnicodeEncodeError"
    using assms(1) by (simp add: codec_raises_def)
  then show ?thesis
    using Inl by (simp add: verify_session_def and_then_def try_except_def except_session_Unicode)
next
  case enc: (Inr tb)
  show ?thesis
  proof (cases "unsign (signer M) now tb (expire_hours M * 3600)")
    case (Inl e)
    then have "isinstance e BadSignature"
      using assms(3) unfolding signer_raises_def by blast
    then show ?thesis
      using enc Inl
      by (simp add: verify_session_def and_then_def try_except_def except_session_BadSignature)
  next
    case uns: (Inr p)
    show ?thesis
    proof (cases "bytes_decode L p")
      case (Inl e)
      then have "e = Raised UnicodeDecodeError"
        using assms(1) by (simp add: codec_raises_def)
      then show ?thesis
        using enc uns Inl
        by (simp add: verify_session_def and_then_def try_except_def except_session_Unicode)
    next
      case dec: (Inr s)
      show ?thesis
      proof (cases "UUID L s")
        case (Inl e)
        then have "e = Raised ValueError"
          using assms(2) by (simp add: uuid_raises_def)
        then show ?thesis
          using enc uns dec Inl
          by (simp add: verify_session_def and_then_def try_except_def except_session_Unicode)
      next
        case (Inr u)
        then show ?thesis
          using enc uns dec by (simp add: verify_session_def and_then_def try_except_def)
      qed
    qed
  qed
qed

text \<open>
  Claim C8. With a codec, a UUID constructor and a signer that raise what their
  documentation says, \<open>verify_session\<close> returns for every token and raises nothing.
  The signature is checked with \<open>max_age = expire_hours * 3600\<close>; a token that the signer
  rejects (bad signature or expired), a token that cannot be encoded, and a payload
  that does not decode to a UUID all give \<open>None\<close>.
\<close>

theorem verify_session_never_raises:
  assumes "codec_raises L" and "uuid_raises L" and "signer_raises (signer M)"
  shows "(\<exists>r. verify_session L M now tok = Inr r) \<and>
    (\<forall>tb e. str_encode L tok = Inr tb \<and>
        unsign (signer M) now tb (expire_hours M * 3600) = Inl e \<longrightarrow>
        verify_session L M now tok = Inr None) \<and>
    (\<forall>tb p e. str_encode L tok = Inr tb \<and>
        unsign (signer M) now tb (expire_hours M * 3600) = Inr p \<and>
        and_then (bytes_decode L p) (UUID L) = Inl e \<longrightarrow>
        verify_session L M now tok = Inr None) \<and>
    (\<forall>e. str_encode L tok = Inl e \<longrightarrow> verify_session L M now tok = Inr None)"
  by (auto simp add: verify_session_cases [OF assms] and_then_def split: sum.splits)

lemma ref_codec_raises: "codec_raises ref_runtime"
  by (simp add: codec_raises_def ref_runtime_def)

lemma ref_codec_roundtrip: "codec_roundtrip ref_runtime"
  by (simp add: codec_roundtrip_def ref_runtime_def)

lemma ref_uuid_raises: "uuid_raises ref_runtime"
  by (simp add: uuid_raises_def ref_runtime_def ref_UUID_def)

lemma ref_uuid_roundtrip: "uuid_roundtrip ref_runtime"
  by (simp add: uuid_roundtrip_def ref_runtime_def ref_UUID_def list_all_iff)

lemma ref_signer_raises: "signer_raises ref_signer"
  by (auto simp add: signer_raises_def ref_signer_def ref_unsign_def Let_def issubclass_def
      split: list.splits if_splits)

lemma ref_unsign_sign:
  "ref_unsign t1 (replicate t0 CHR ''1'' @ CHR ''.'' # v) m =
     (if int t1 - int t0 > m \<or> t1 < t0 then Inl (Raised SignatureExpired) else Inr v)"
proof -
  have a: "takeWhile (\<lambda>c. c = CHR ''1'') (replicate t0 CHR ''1'' @ CHR ''.'' # v)
             = replicate t0 CHR ''1''"
    by (induction t0) simp_all
  have b: "dropWhile (\<lambda>c. c = CHR ''1'') (replicate t0 CHR ''1'' @ CHR ''.'' # v)
             = CHR ''.'' # v"
    by (induction t0) simp_all
  show ?thesis
    by (simp add: ref_unsign_def a b)
qed

lemma ref_signer_roundtrip: "signer_roundtrip ref_signer"
  by (auto simp add: signer_roundtrip_def ref_signer_def ref_unsign_sign)

theorem verify_session_never_raises_witness:
  "codec_raises ref_runtime \<and> uuid_raises ref_runtime \<and>
   signer_raises (signer \<lparr>signer = ref_signer, expire_hours = 24\<rparr>) \<and>
   str_encode ref_runtime ''not-a-valid-token'' = Inr ''not-a-valid-token'' \<and>
   unsign ref_signer 100 ''not-a-valid-token'' (24 * 3600) = Inl (Raised BadSignature) \<and>
   verify_session ref_runtime \<lparr>signer = ref_signer, expire_hours = 24\<rparr> 100
     ''not-a-valid-token'' = Inr None"
proof -
  have s: "signer_raises (signer \<lparr>signer = ref_signer, expire_hours = 24\<rparr>)"
    by (simp add: ref_signer_raises)
  have e: "str_encode ref_runtime ''not-a-valid-token'' = Inr ''not-a-valid-token''"
    by (simp add: ref_runtime_def)
  have u: "unsign ref_signer 100 ''not-a-valid-token'' (24 * 3600) = Inl (Raised BadSignature)"
    by (simp add: ref_signer_def ref_unsign_def)
  show ?thesis
    using verify_session_never_raises [OF ref_codec_raises ref_uuid_raises s, of 100
        "''not-a-valid-token''"] e u ref_codec_raises ref_uuid_raises s
    by simp
qed

subsection \<open>Session round trip\<close>

text \<open>
  Claim C7. A token that \<open>create_session\<close> made for \<open>user_id\<close> at clock reading \<open>t0\<close>
  verifies to that \<open>user_id\<close> at every later reading \<open>t1\<close> within
  \<open>expire_hours * 3600\<close> seconds, for a codec, a UUID type and a signer that round-trip.
\<close>

theorem session_roundtrip:
  assumes "codec_roundtrip L" and "uuid_roundtrip L" and "signer_roundtrip (signer M)"
    and "create_session L M t0 user_id = Inr token"
    and "t0 \<le> t1" and "int t1 - int t0 \<le> expire_hours M * 3600"
  shows "verify_session L M t1 token = Inr (Some user_id)"
proof -
  obtain v where v: "str_encode L (uuid_str L user_id) = Inr v"
    and d: "bytes_decode L (sign (signer M) t0 v) = Inr token"
    using assms(4) by (auto simp add: create_session_def and_then_def split: sum.splits)
  have enc: "str_encode L token = Inr (sign (signer M) t0 v)"
    using assms(1) d unfolding codec_roundtrip_def by blast
  have uns: "unsign (signer M) t1 (sign (signer M) t0 v) (expire_hours M * 3600) = Inr v"
    using assms(3,5,6) unfolding signer_roundtrip_def by blast
  have dec: "bytes_decode L v = Inr (uuid_str L user_id)"
    using assms(1) v unfolding codec_roundtrip_def by blast
  have uu: "UUID L (uuid_str L user_id) = Inr user_id"
    using assms(2) unfolding uuid_roundtrip_def by blast
  show ?thesis
    by (simp add: verify_session_def and_then_def try_except_def enc uns dec uu)
qed

theorem session_roundtrip_witness:
  "codec_roundtrip ref_runtime \<and> uuid_roundtrip ref_runtime \<and>
   signer_roundtrip (signer \<lparr>signer = ref_signer, expire_hours = 24\<rparr>) \<and>
   create_session ref_runtime \<lparr>signer = ref_signer, expire_hours = 24\<rparr> 2 3 = Inr ''11.uuu'' \<and>
   (2::nat) \<le> 5 \<and>
   int 5 - int 2 \<le> expire_hours \<lparr>signer = ref_signer, expire_hours = 24\<rparr> * 3600 \<and>
   verify_session ref_runtime \<lparr>signer = ref_signer, expire_hours = 24\<rparr> 5 ''11.uuu''
     = Inr (Some 3)"
proof -
  have s: "signer_roundtrip (signer \<lparr>signer = ref_signer, expire_hours = 24\<rparr>)"
    by (simp add: ref_signer_roundtrip)
  have c: "create_session ref_runtime \<lparr>signer = ref_signer, expire_hours = 24\<rparr> 2 3
             = Inr ''11.uuu''"
  proof -
    have u: "unat (3::uuid) = 3" by simp
    have r3: "replicate 3 CHR ''u'' = ''uuu''" by (simp add: numeral_3_eq_3)
    have r2: "replicate 2 CHR ''1'' = ''11''" by (simp add: numeral_2_eq_2)
    show ?thesis
      by (simp add: create_session_def and_then_def ref_runtime_def ref_signer_def u r3 r2)
  qed
  have t: "(2::nat) \<le> 5" by simp
  have a: "int 5 - int 2 \<le> expire_hours \<lparr>signer = ref_signer, expire_hours = 24\<rparr> * 3600"
    by simp
  show ?thesis
    using session_roundtrip [OF ref_codec_roundtrip ref_uuid_roundtrip s c t a]
      ref_codec_roundtrip ref_uuid_roundtrip s c
    by simp
qed

subsection \<open>Client address\<close>

text \<open>
  Claim C10, amended. A header counts only when its value is a non-empty string. With
  a non-empty \<open>X-Forwarded-For\<close> value, \<open>get_client_ip\<close> returns its part before the
  first comma, stripped, so two requests with the same such value get the same
  address; otherwise, with a non-empty \<open>X-Real-IP\<close> value, it returns that value
  stripped; otherwise the peer address of the connection; and \<open>unknown\<close> when there
  is none.
\<close>

theorem get_client_ip_precedence:
  "(\<forall>f. headers req ''X-Forwarded-For'' = Some f \<and> f \<noteq> [] \<longrightarrow>
        get_client_ip req = strip (split_first CHR '','' f)) \<and>
   (\<forall>r. truthy (headers req ''X-Forwarded-For'') = None \<and>
        headers req ''X-Real-IP'' = Some r \<and> r \<noteq> [] \<longrightarrow>
        get_client_ip req = strip r) \<and>
   (\<forall>c. truthy (headers req ''X-Forwarded-For'') = None \<and>
        truthy (headers req ''X-Real-IP'') = None \<and> client req = Some c \<longrightarrow>
        get_client_ip req = host c) \<and>
   (truthy (headers req ''X-Forwarded-For'') = None \<and>
        truthy (headers req ''X-Real-IP'') = None \<and> client req = None \<longrightarrow>
        get_client_ip req = ''unknown'') \<and>
   (\<forall>f req'. headers req ''X-Forwarded-For'' = Some f \<and> f \<noteq> [] \<and>
        headers req' ''X-Forwarded-For'' = Some f \<longrightarrow>
        get_client_ip req' = get_client_ip req)"
  by (auto simp add: get_client_ip_def truthy_def split: option.splits)

theorem get_client_ip_precedence_witness:
  "headers \<lparr>headers = [''X-Forwarded-For'' \<mapsto> ''203.0.113.7 , 10.0.0.1'',
                        ''X-Real-IP'' \<mapsto> ''10.0.0.2''],
            cookies = Map.empty, client = Some \<lparr>host = ''127.0.0.1''\<rparr>,
            url_path = ''/login''\<rparr> ''X-Forwarded-For'' = Some ''203.0.113.7 , 10.0.0.1'' \<and>
   ''203.0.113.7 , 10.0.0.1'' \<noteq> [] \<and>
   get_client_ip \<lparr>headers = [''X-Forwarded-For'' \<mapsto> ''203.0.113.7 , 10.0.0.1'',
                        ''X-Real-IP'' \<mapsto> ''10.0.0.2''],
            cookies = Map.empty, client = Some \<lparr>host = ''127.0.0.1''\<rparr>,
            url_path = ''/login''\<rparr> = ''203.0.113.7''"
proof -
  have s: "strip (split_first CHR '','' ''203.0.113.7 , 10.0.0.1'') = ''203.0.113.7''"
    by (simp add: strip_def split_first_def py_isspace_def)
  show ?thesis
    using get_client_ip_precedence [of "\<lparr>headers = [''X-Forwarded-For'' \<mapsto> ''203.0.113.7 , 10.0.0.1'',
                        ''X-Real-IP'' \<mapsto> ''10.0.0.2''],
            cookies = Map.empty, client = Some \<lparr>host = ''127.0.0.1''\<rparr>,
            url_path = ''/login''\<rparr>"] s
    by simp
qed

text \<open>
  Claim C10 as stated fails for an \<open>X-Forwarded-For\<close> header that is present with an
  empty value: the result is not the stripped first entry of that header, and two
  requests carrying the same header get different addresses, taken from \<open>X-Real-IP\<close>.
\<close>

theorem get_client_ip_empty_forwarded_counterexample:
  "headers \<lparr>headers = [''X-Forwarded-For'' \<mapsto> '''', ''X-Real-IP'' \<mapsto> ''10.0.0.2''],
            cookies = Map.empty, client = None, url_path = ''/login''\<rparr>
     ''X-Forwarded-For'' = Some '''' \<and>
   get_client_ip \<lparr>headers = [''X-Forwarded-For'' \<mapsto> '''', ''X-Real-IP'' \<mapsto> ''10.0.0.2''],
            cookies = Map.empty, client = None, url_path = ''/login''\<rparr>
     \<noteq> strip (split_first CHR '','' '''') \<and>
   get_client_ip \<lparr>headers = [''X-Forwarded-For'' \<mapsto> '''', ''X-Real-IP'' \<mapsto> ''10.0.0.2''],
            cookies = Map.empty, client = None, url_path = ''/login''\<rparr> = ''10.0.0.2'' \<and>
   get_client_ip \<lparr>headers = [''X-Forwarded-For'' \<mapsto> '''', ''X-Real-IP'' \<mapsto> ''10.0.0.3''],
            cookies = Map.empty, client = None, url_path = ''/login''\<rparr> = ''10.0.0.3''"
  by (simp add: get_client_ip_def truthy_def strip_def split_first_def py_isspace_def)

subsection \<open>CSRF verification\<close>

lemma except_BadSignature: "except [BadSignature] e = isinstance e BadSignature"
  by (simp add: except_def)

lemma verify_token_empty: "verify_token L C now [] = Inr False"
  by (simp add: verify_token_def)

lemma verify_token_accepts:
  "t \<noteq> [] \<Longrightarrow> str_encode L t = Inr tb \<Longrightarrow> unsign (csrf_signer C) now tb 3600 = Inr v \<Longrightarrow>
   verify_token L C now t = Inr True"
  by (simp add: verify_token_def and_then_def try_except_def)

lemma verify_token_rejects:
  "t \<noteq> [] \<Longrightarrow> str_encode L t = Inr tb \<Longrightarrow> unsign (csrf_signer C) now tb 3600 = Inl e \<Longrightarrow>
   isinstance e BadSignature \<Longrightarrow> verify_token L C now t = Inr False"
  by (simp add: verify_token_def and_then_def try_except_def except_BadSignature)

text \<open>
  Claim C3, amended. \<open>verify_csrf_token\<close> skips the check exactly for the requests
  whose URL path starts with \<open>/api/\<close>, whatever credential they carry. For every other
  request it raises 403 when neither the header nor the form field holds a non-empty
  token, and when the signer rejects the token with \<open>BadSignature\<close> or a subclass
  (a tampered token, or \<open>SignatureExpired\<close> for one older than 3600 seconds); it
  passes when the signer accepts the token.
\<close>

theorem verify_csrf_token_by_path:
  "(verify_csrf_token L C now req None None = Inr () \<longleftrightarrow> startswith (url_path req) ''/api/'') \<and>
   isinstance (Raised BadSignature) BadSignature \<and>
   isinstance (Raised SignatureExpired) BadSignature \<and>
   (startswith (url_path req) ''/api/'' \<longrightarrow>
      verify_csrf_token L C now req csrf_token x_csrf_token = Inr ()) \<and>
   (\<not> startswith (url_path req) ''/api/'' \<longrightarrow>
      (truthy (py_or x_csrf_token csrf_token) = None \<longrightarrow>
         verify_csrf_token L C now req csrf_token x_csrf_token =
           Inl (HTTPException 403 ''Invalid or missing CSRF token'')) \<and>
      (\<forall>t tb e. truthy (py_or x_csrf_token csrf_token) = Some t \<and> str_encode L t = Inr tb \<and>
         unsign (csrf_signer C) now tb 3600 = Inl e \<and> isinstance e BadSignature \<longrightarrow>
         verify_csrf_token L C now req csrf_token x_csrf_token =
           Inl (HTTPException 403 ''Invalid or missing CSRF token'')) \<and>
      (\<forall>t tb v. truthy (py_or x_csrf_token csrf_token) = Some t \<and> str_encode L t = Inr tb \<and>
         unsign (csrf_signer C) now tb 3600 = Inr v \<longrightarrow>
         verify_csrf_token L C now req csrf_token x_csrf_token = Inr ()))"
proof -
  have ne: "\<And>t. truthy (py_or x_csrf_token csrf_token) = Some t \<Longrightarrow> t \<noteq> []"
    by (auto simp add: truthy_def split: option.splits if_splits)
  have none: "truthy (py_or None None) = None"
    by (simp add: py_or_def truthy_def)
  show ?thesis
    by (auto simp add: verify_csrf_token_def Let_def and_then_def none issubclass_def
        verify_token_accepts verify_token_rejects dest: ne)
qed


theorem verify_csrf_token_by_path_witness:
  "\<not> startswith (url_path \<lparr>headers = [''X-API-Key'' \<mapsto> ''k''], cookies = Map.empty,
        client = None, url_path = ''/account/api-keys''\<rparr>) ''/api/'' \<and>
   truthy (py_or None (Some ''tampered'')) = Some ''tampered'' \<and>
   str_encode ref_runtime ''tampered'' = Inr ''tampered'' \<and>
   unsign (csrf_signer \<lparr>csrf_signer = ref_signer\<rparr>) 100 ''tampered'' 3600
     = Inl (Raised BadSignature) \<and>
   isinstance (Raised BadSignature) BadSignature \<and>
   verify_csrf_token ref_runtime \<lparr>csrf_signer = ref_signer\<rparr> 100
     \<lparr>headers = [''X-API-Key'' \<mapsto> ''k''], cookies = Map.empty,
        client = None, url_path = ''/account/api-keys''\<rparr> (Some ''tampered'') None
     = Inl (HTTPException 403 ''Invalid or missing CSRF token'')"
proof -
  have p: "\<not> startswith (url_path \<lparr>headers = [''X-API-Key'' \<mapsto> ''k''], cookies = Map.empty,
        client = None, url_path = ''/account/api-keys''\<rparr>) ''/api/''"
    by (simp add: startswith_def)
  have t: "truthy (py_or None (Some ''tampered'')) = Some ''tampered''"
    by (simp add: py_or_def truthy_def)
  have e: "str_encode ref_runtime ''tampered'' = Inr ''tampered''"
    by (simp add: ref_runtime_def)
  have u: "unsign (csrf_signer \<lparr>csrf_signer = ref_signer\<rparr>) 100 ''tampered'' 3600
     = Inl (Raised BadSignature)"
    by (simp add: ref_signer_def ref_unsign_def)
  have i: "isinstance (Raised BadSignature) BadSignature"
    by (simp add: issubclass_def)
  show ?thesis
    using verify_csrf_token_by_path [of ref_runtime "\<lparr>csrf_signer = ref_signer\<rparr>" 100
        "\<lparr>headers = [''X-API-Key'' \<mapsto> ''k''], cookies = Map.empty,
        client = None, url_path = ''/account/api-keys''\<rparr>" "Some ''tampered''" None] p t e u i
    by blast
qed

text \<open>
  Claim C3 as stated fails both ways: a request to \<open>/account/api-keys\<close> that carries
  an \<open>X-API-Key\<close> header and no token is refused with 403, and a request to a path
  under \<open>/api/\<close> that carries a session cookie, no API key and no token passes.
\<close>

theorem csrf_skip_not_by_credential_counterexample:
  "truthy (headers \<lparr>headers = [''X-API-Key'' \<mapsto> ''k''], cookies = Map.empty,
        client = None, url_path = ''/account/api-keys''\<rparr> ''X-API-Key'') = Some ''k'' \<and>
   verify_csrf_token ref_runtime \<lparr>csrf_signer = ref_signer\<rparr> 100
     \<lparr>headers = [''X-API-Key'' \<mapsto> ''k''], cookies = Map.empty,
        client = None, url_path = ''/account/api-keys''\<rparr> None None
     = Inl (HTTPException 403 ''Invalid or missing CSRF token'') \<and>
   truthy (headers \<lparr>headers = Map.empty, cookies = [''session'' \<mapsto> ''11.uuu''],
        client = None, url_path = ''/api/v1/commands/''\<rparr> ''X-API-Key'') = None \<and>
   verify_csrf_token ref_runtime \<lparr>csrf_signer = ref_signer\<rparr> 100
     \<lparr>headers = Map.empty, cookies = [''session'' \<mapsto> ''11.uuu''],
        client = None, url_path = ''/api/v1/commands/''\<rparr> None None
     = Inr ()"
  by (simp add: verify_csrf_token_def startswith_def truthy_def py_or_def)

subsection \<open>Authentication by API key\<close>

lemma verify_api_key_cases:
  "verify_api_key L x h = Inr True \<or> verify_api_key L x h = Inr False"
  by (simp add: verify_api_key_total)

lemma find_api_key_find:
  "find_api_key L x ks = Inr (find (\<lambda>k. verify_api_key L x (ak_key k) = Inr True) ks)"
proof (induction ks)
  case Nil
  then show ?case by simp
next
  case (Cons k ks)
  from verify_api_key_cases [of L x "ak_key k"] show ?case
  proof
    assume "verify_api_key L x (ak_key k) = Inr True"
    then show ?thesis by simp
  next
    assume "verify_api_key L x (ak_key k) = Inr False"
    then show ?thesis using Cons.IH by simp
  qed
qed

lemma touch_api_key_sets:
  "k' \<in> set (api_keys (touch_api_key now k d)) \<Longrightarrow> ak_id k' = ak_id k \<Longrightarrow>
   ak_last_used_at k' = Some now"
  by (auto simp add: touch_api_key_def)

lemma touch_api_key_users: "users (touch_api_key now k d) = users d"
  by (simp add: touch_api_key_def)

lemma touch_api_key_present:
  "k \<in> set (api_keys d) \<Longrightarrow> k\<lparr>ak_last_used_at := Some now\<rparr> \<in> set (api_keys (touch_api_key now k d))"
  by (force simp add: touch_api_key_def)

lemma get_current_user_nonempty_key:
  assumes "x_api_key = Some v" and "v \<noteq> []"
  shows
  "((\<forall>k \<in> set (api_keys d). ak_is_active k \<longrightarrow> verify_api_key L v (ak_key k) \<noteq> Inr True) \<longrightarrow>
      get_current_user L M now req x_api_key d = Inl (HTTPException 401 ''Invalid API key'')) \<and>
   (\<forall>k usr. find (\<lambda>k. verify_api_key L v (ak_key k) = Inr True)
               (filter ak_is_active (api_keys d)) = Some k \<and>
        find (\<lambda>u. u_id u = ak_user_id k) (users d) = Some usr \<and> \<not> u_is_active usr \<longrightarrow>
      get_current_user L M now req x_api_key d =
        Inl (HTTPException 401 ''User account is inactive'')) \<and>
   (\<forall>k usr. find (\<lambda>k. verify_api_key L v (ak_key k) = Inr True)
               (filter ak_is_active (api_keys d)) = Some k \<and>
        find (\<lambda>u. u_id u = ak_user_id k) (users d) = Some usr \<and> u_is_active usr \<longrightarrow>
      get_current_user L M now req x_api_key d = Inr (usr, touch_api_key now k d) \<and>
      k\<lparr>ak_last_used_at := Some now\<rparr> \<in> set (api_keys (touch_api_key now k d)) \<and>
      (\<forall>k' \<in> set (api_keys (touch_api_key now k d)).
          ak_id k' = ak_id k \<longrightarrow> ak_last_used_at k' = Some now) \<and>
      users (touch_api_key now k d) = users d) \<and>
   (\<forall>req'. get_current_user L M now req' x_api_key d =
            get_current_user L M now req x_api_key d)"
proof -
  let ?P = "\<lambda>k. verify_api_key L v (ak_key k) = Inr True"
  let ?act = "filter ak_is_active (api_keys d)"
  have t: "truthy x_api_key = Some v"
    using assms by (simp add: truthy_def)
  have gcu: "\<And>r. get_current_user L M now r x_api_key d =
     (case find ?P ?act of
        None \<Rightarrow> Inl (HTTPException 401 ''Invalid API key'')
      | Some k \<Rightarrow>
          (case find (\<lambda>u. u_id u = ak_user_id k) (users d) of
             None \<Rightarrow> Inl (Raised AttributeError)
           | Some usr \<Rightarrow>
               if \<not> u_is_active usr
               then Inl (HTTPException 401 ''User account is inactive'')
               else Inr (usr, touch_api_key now k d)))"
    by (simp add: get_current_user_def t find_api_key_find)
  have c1: "(\<forall>k \<in> set (api_keys d). ak_is_active k \<longrightarrow> \<not> ?P k) \<longrightarrow>
      get_current_user L M now req x_api_key d = Inl (HTTPException 401 ''Invalid API key'')"
  proof
    assume a: "\<forall>k \<in> set (api_keys d). ak_is_active k \<longrightarrow> \<not> ?P k"
    then have "find ?P ?act = None"
      by (simp add: find_None_iff)
    then show "get_current_user L M now req x_api_key d = Inl (HTTPException 401 ''Invalid API key'')"
      by (simp add: gcu)
  qed
  have c4: "\<forall>req'. get_current_user L M now req' x_api_key d =
            get_current_user L M now req x_api_key d"
    by (simp add: gcu)
  have mem: "\<And>k. find ?P ?act = Some k \<Longrightarrow> k \<in> set (api_keys d)"
  proof -
    fix k assume "find ?P ?act = Some k"
    then have "k \<in> set ?act"
      unfolding find_Some_iff by (metis nth_mem)
    then show "k \<in> set (api_keys d)" by simp
  qed
  have c2: "\<forall>k usr. find ?P ?act = Some k \<and>
        find (\<lambda>u. u_id u = ak_user_id k) (users d) = Some usr \<and> \<not> u_is_active usr \<longrightarrow>
      get_current_user L M now req x_api_key d =
        Inl (HTTPException 401 ''User account is inactive'')"
    by (simp add: gcu)
  have c3: "\<forall>k usr. find ?P ?act = Some k \<and>
        find (\<lambda>u. u_id u = ak_user_id k) (users d) = Some usr \<and> u_is_active usr \<longrightarrow>
      get_current_user L M now req x_api_key d = Inr (usr, touch_api_key now k d) \<and>
      k\<lparr>ak_last_used_at := Some now\<rparr> \<in> set (api_keys (touch_api_key now k d)) \<and>
      (\<forall>k' \<in> set (api_keys (touch_api_key now k d)).
          ak_id k' = ak_id k \<longrightarrow> ak_last_used_at k' = Some now) \<and>
      users (touch_api_key now k d) = users d"
  proof (intro allI impI, elim conjE)
    fix k usr
    assume f: "find ?P ?act = Some k"
      and o: "find (\<lambda>u. u_id u = ak_user_id k) (users d) = Some usr"
      and ac: "u_is_active usr"
    have r: "get_current_user L M now req x_api_key d = Inr (usr, touch_api_key now k d)"
      using f o ac by (simp add: gcu)
    have p: "k\<lparr>ak_last_used_at := Some now\<rparr> \<in> set (api_keys (touch_api_key now k d))"
      using mem [OF f] by (rule touch_api_key_present)
    have q: "\<forall>k' \<in> set (api_keys (touch_api_key now k d)).
          ak_id k' = ak_id k \<longrightarrow> ak_last_used_at k' = Some now"
      using touch_api_key_sets by blast
    show "get_current_user L M now req x_api_key d = Inr (usr, touch_api_key now k d) \<and>
      k\<lparr>ak_last_used_at := Some now\<rparr> \<in> set (api_keys (touch_api_key now k d)) \<and>
      (\<forall>k' \<in> set (api_keys (touch_api_key now k d)).
          ak_id k' = ak_id k \<longrightarrow> ak_last_used_at k' = Some now) \<and>
      users (touch_api_key now k d) = users d"
      using r p q touch_api_key_users by blast
  qed
  show ?thesis
    using c1 c2 c3 c4 by blast
qed

text \<open>
  Claim C2, amended. When the \<open>X-API-Key\<close> header holds a non-empty value,
  \<open>get_current_user\<close> decides on the API-key path alone and its result does not
  depend on the request's cookies. If no active key verifies against the value it
  raises 401 \<open>Invalid API key\<close>. Otherwise, with \<open>k\<close> the first active key that
  verifies: if the owner of \<open>k\<close> is inactive it raises 401
  \<open>User account is inactive\<close>; if the owner is active it returns the owner, and in
  the store it leaves \<open>last_used_at\<close> of \<open>k\<close> is the current time. A header that
  is present with an empty value is treated as absent: the result is the one for a
  request without the header.
\<close>

theorem get_current_user_api_key:
  "(x_api_key = Some v \<and> v \<noteq> [] \<longrightarrow>
   ((\<forall>k \<in> set (api_keys d). ak_is_active k \<longrightarrow> verify_api_key L v (ak_key k) \<noteq> Inr True) \<longrightarrow>
       get_current_user L M now req x_api_key d = Inl (HTTPException 401 ''Invalid API key'')) \<and>
    (\<forall>k usr. find (\<lambda>k. verify_api_key L v (ak_key k) = Inr True)
                (filter ak_is_active (api_keys d)) = Some k \<and>
         find (\<lambda>u. u_id u = ak_user_id k) (users d) = Some usr \<and> \<not> u_is_active usr \<longrightarrow>
       get_current_user L M now req x_api_key d =
         Inl (HTTPException 401 ''User account is inactive'')) \<and>
    (\<forall>k usr. find (\<lambda>k. verify_api_key L v (ak_key k) = Inr True)
                (filter ak_is_active (api_keys d)) = Some k \<and>
         find (\<lambda>u. u_id u = ak_user_id k) (users d) = Some usr \<and> u_is_active usr \<longrightarrow>
       get_current_user L M now req x_api_key d = Inr (usr, touch_api_key now k d) \<and>
       k\<lparr>ak_last_used_at := Some now\<rparr> \<in> set (api_keys (touch_api_key now k d)) \<and>
       (\<forall>k' \<in> set (api_keys (touch_api_key now k d)).
           ak_id k' = ak_id k \<longrightarrow> ak_last_used_at k' = Some now) \<and>
       users (touch_api_key now k d) = users d) \<and>
    (\<forall>req'. get_current_user L M now req' x_api_key d =
             get_current_user L M now req x_api_key d)) \<and>
   get_current_user L M now req (Some []) d = get_current_user L M now req None d"
proof (rule conjI)
  show "x_api_key = Some v \<and> v \<noteq> [] \<longrightarrow>
   ((\<forall>k \<in> set (api_keys d). ak_is_active k \<longrightarrow> verify_api_key L v (ak_key k) \<noteq> Inr True) \<longrightarrow>
       get_current_user L M now req x_api_key d = Inl (HTTPException 401 ''Invalid API key'')) \<and>
    (\<forall>k usr. find (\<lambda>k. verify_api_key L v (ak_key k) = Inr True)
                (filter ak_is_active (api_keys d)) = Some k \<and>
         find (\<lambda>u. u_id u = ak_user_id k) (users d) = Some usr \<and> \<not> u_is_active usr \<longrightarrow>
       get_current_user L M now req x_api_key d =
         Inl (HTTPException 401 ''User account is inactive'')) \<and>
    (\<forall>k usr. find (\<lambda>k. verify_api_key L v (ak_key k) = Inr True)
                (filter ak_is_active (api_keys d)) = Some k \<and>
         find (\<lambda>u. u_id u = ak_user_id k) (users d) = Some usr \<and> u_is_active usr \<longrightarrow>
       get_current_user L M now req x_api_key d = Inr (usr, touch_api_key now k d) \<and>
       k\<lparr>ak_last_used_at := Some now\<rparr> \<in> set (api_keys (touch_api_key now k d)) \<and>
       (\<forall>k' \<in> set (api_keys (touch_api_key now k d)).
           ak_id k' = ak_id k \<longrightarrow> ak_last_used_at k' = Some now) \<and>
       users (touch_api_key now k d) = users d) \<and>
    (\<forall>req'. get_current_user L M now req' x_api_key d =
             get_current_user L M now req x_api_key d)"
  proof (rule impI)
    assume "x_api_key = Some v \<and> v \<noteq> []"
    then have a: "x_api_key = Some v" and b: "v \<noteq> []"
      by simp_all
    show "((\<forall>k \<in> set (api_keys d). ak_is_active k \<longrightarrow> verify_api_key L v (ak_key k) \<noteq> Inr True) \<longrightarrow>
      get_current_user L M now req x_api_key d = Inl (HTTPException 401 ''Invalid API key'')) \<and>
   (\<forall>k usr. find (\<lambda>k. verify_api_key L v (ak_key k) = Inr True)
               (filter ak_is_active (api_keys d)) = Some k \<and>
        find (\<lambda>u. u_id u = ak_user_id k) (users d) = Some usr \<and> \<not> u_is_active usr \<longrightarrow>
      get_current_user L M now req x_api_key d =
        Inl (HTTPException 401 ''User account is inactive'')) \<and>
   (\<forall>k usr. find (\<lambda>k. verify_api_key L v (ak_key k) = Inr True)
               (filter ak_is_active (api_keys d)) = Some k \<and>
        find (\<lambda>u. u_id u = ak_user_id k) (users d) = Some usr \<and> u_is_active usr \<longrightarrow>
      get_current_user L M now req x_api_key d = Inr (usr, touch_api_key now k d) \<and>
      k\<lparr>ak_last_used_at := Some now\<rparr> \<in> set (api_keys (touch_api_key now k d)) \<and>
      (\<forall>k' \<in> set (api_keys (touch_api_key now k d)).
          ak_id k' = ak_id k \<longrightarrow> ak_last_used_at k' = Some now) \<and>
      users (touch_api_key now k d) = users d) \<and>
   (\<forall>req'. get_current_user L M now req' x_api_key d =
            get_current_user L M now req x_api_key d)"
      by (rule get_current_user_nonempty_key [OF a b])
  qed
next
  show "get_current_user L M now req (Some []) d = get_current_user L M now req None d"
    by (simp add: get_current_user_def truthy_def)
qed

lemma ref_verify_api_key_secret:
  "verify_api_key ref_runtime ''secret'' ''$2b$secret'' = Inr True"
  by (simp add: verify_api_key_def try_except_def and_then_def ref_runtime_def ref_checkpw_def)

theorem get_current_user_api_key_witness:
  "Some ''secret'' = Some ''secret'' \<and> ''secret'' \<noteq> [] \<and>
   find (\<lambda>k. verify_api_key ref_runtime ''secret'' (ak_key k) = Inr True)
     (filter ak_is_active (api_keys ex_db)) = Some ex_key \<and>
   find (\<lambda>u. u_id u = ak_user_id ex_key) (users ex_db) = Some ex_alice \<and>
   u_is_active ex_alice \<and>
   get_current_user ref_runtime ex_manager 100
     \<lparr>headers = [''X-API-Key'' \<mapsto> ''secret''], cookies = Map.empty, client = None,
      url_path = ''/api/v1/commands/''\<rparr> (Some ''secret'') ex_db
     = Inr (ex_alice, touch_api_key 100 ex_key ex_db) \<and>
   api_keys (touch_api_key 100 ex_key ex_db) = [ex_key\<lparr>ak_last_used_at := Some 100\<rparr>]"
proof -
  have f: "find (\<lambda>k. verify_api_key ref_runtime ''secret'' (ak_key k) = Inr True)
     (filter ak_is_active (api_keys ex_db)) = Some ex_key"
    by (simp add: ex_db_def ex_key_def ref_verify_api_key_secret)
  have o: "find (\<lambda>u. u_id u = ak_user_id ex_key) (users ex_db) = Some ex_alice"
    by (simp add: ex_db_def ex_key_def ex_alice_def)
  have a: "u_is_active ex_alice"
    by (simp add: ex_alice_def)
  have t: "api_keys (touch_api_key 100 ex_key ex_db) = [ex_key\<lparr>ak_last_used_at := Some 100\<rparr>]"
    by (simp add: touch_api_key_def ex_db_def)
  have n: "''secret'' \<noteq> []" by simp
  show ?thesis
    using get_current_user_api_key [of "Some ''secret''" "''secret''" ex_db ref_runtime
      ex_manager 100
      "\<lparr>headers = [''X-API-Key'' \<mapsto> ''secret''], cookies = Map.empty, client = None,
      url_path = ''/api/v1/commands/''\<rparr>"] f o a t
    by blast
qed

lemma ref_verify_session_alice:
  "verify_session ref_runtime ex_manager 5 ''11.uuu'' = Inr (Some 3)"
proof -
  have u: "ref_unsign 5 ''11.uuu'' 86400 = Inr ''uuu''"
    by (simp add: ref_unsign_def)
  have p: "ref_UUID ''uuu'' = Inr 3"
    by (simp add: ref_UUID_def)
  show ?thesis
    by (simp add: verify_session_def and_then_def try_except_def ref_runtime_def
        ex_manager_def ref_signer_def u p)
qed

text \<open>
  Claim C2 as stated fails for an \<open>X-API-Key\<close> header that is present with an empty
  value: the request falls through to the session cookie and, with a valid session,
  the user of the session is returned instead of 401 \<open>Invalid API key\<close>.
\<close>

theorem get_current_user_empty_key_counterexample:
  "headers \<lparr>headers = [''X-API-Key'' \<mapsto> ''''], cookies = [''session'' \<mapsto> ''11.uuu''],
      client = None, url_path = ''/api/v1/commands/''\<rparr> ''X-API-Key'' = Some '''' \<and>
   get_current_user ref_runtime ex_manager 5
     \<lparr>headers = [''X-API-Key'' \<mapsto> ''''], cookies = [''session'' \<mapsto> ''11.uuu''],
      client = None, url_path = ''/api/v1/commands/''\<rparr> (Some '''') ex_db
     = Inr (ex_alice, ex_db) \<and>
   get_current_user ref_runtime ex_manager 5
     \<lparr>headers = [''X-API-Key'' \<mapsto> ''''], cookies = [''session'' \<mapsto> ''11.uuu''],
      client = None, url_path = ''/api/v1/commands/''\<rparr> (Some '''') ex_db
     \<noteq> Inl (HTTPException 401 ''Invalid API key'')"
proof -
  have f: "find (\<lambda>u. u_id u = 3) (users ex_db) = Some ex_alice"
    by (simp add: ex_db_def ex_alice_def)
  have a: "u_is_active ex_alice"
    by (simp add: ex_alice_def)
  show ?thesis
    by (simp add: get_current_user_def truthy_def ref_verify_session_alice f a)
qed

subsection \<open>Login\<close>

lemma handle_login_raises:
  assumes "is_allowed L rl now (key @ '':'' @ get_client_ip req) 5 900 = Inl e"
  shows "handle_login L M sc rl now req username password d tmpl redir key ra = (Inl e, rl)"
  using assms by (simp add: handle_login_def Let_def)

lemma handle_login_limiter:
  assumes "is_allowed L rl now (key @ '':'' @ get_client_ip req) 5 900 = Inr ((a, r), rl')"
  shows "snd (handle_login L M sc rl now req username password d tmpl redir key ra) = rl'"
  using assms by (simp add: handle_login_def Let_def split: option.splits sum.splits)

lemma handle_login_denied:
  assumes "is_allowed L rl now (key @ '':'' @ get_client_ip req) 5 900 = Inr ((False, r), rl')"
  shows "fst (handle_login L M sc rl now req username password d tmpl redir key ra) =
     Inr (TemplateResponse tmpl req
            ''Too many login attempts. Please try again in 15 minutes.'' 429)"
  using assms by (simp add: handle_login_def Let_def)

lemma handle_login_allowed:
  assumes "is_allowed L rl now (key @ '':'' @ get_client_ip req) 5 900 = Inr ((True, r), rl')"
  shows "fst (handle_login L M sc rl now req username password d tmpl redir key ra) =
     (case find (\<lambda>u. u_username u = username) (users d) of
        None \<Rightarrow> Inr (TemplateResponse tmpl req ''Invalid username or password'' 401)
      | Some usr \<Rightarrow>
          (case (case truthy (u_password_hash usr) of
                   None \<Rightarrow> Inr False
                 | Some password_hash \<Rightarrow> verify_password L password password_hash) of
             Inl e \<Rightarrow> Inl e
           | Inr verified \<Rightarrow>
               if \<not> verified
               then Inr (TemplateResponse tmpl req ''Invalid username or password'' 401)
               else if ra \<and> u_role usr \<noteq> ''admin''
               then Inr (TemplateResponse tmpl req ''Admin access required'' 403)
               else if \<not> u_is_active usr
               then Inr (TemplateResponse tmpl req ''Account is inactive'' 403)
               else
                 (case create_session L M (nat \<lfloor>now\<rfloor>) (u_id usr) of
                    Inl e \<Rightarrow> Inl e
                  | Inr session_token \<Rightarrow>
                      Inr (RedirectResponse redir 303
                         \<lparr>cookie_key = ''session'', cookie_value = session_token,
                          cookie_httponly = True, cookie_secure = sc,
                          cookie_samesite = ''lax'',
                          cookie_max_age = expire_hours M * 3600\<rparr>))))"
  using assms by (auto simp add: handle_login_def Let_def split: option.splits sum.splits)

text \<open>
  Claim C5. \<open>handle_login\<close> first consumes one rate-limit slot for the key built from
  the flow name and the client address, whatever comes after (were the limiter to
  raise, that exception would be the outcome). When the limiter denies, the answer
  is the 429 page for every user store, user name and password. When it allows: an
  unknown user name gives the 401 page; a user without a password hash, or with a
  password that does not verify, gives the same 401 page whatever the role and the
  active flag of the account; after a verified password, a missing administrator
  role (when required) gives the 403 \<open>Admin access required\<close> page, also for an
  inactive account; then an inactive account gives the 403 \<open>Account is inactive\<close>
  page; otherwise the answer is the redirect (303) that sets the session cookie.
\<close>

theorem handle_login_order:
  "(\<forall>e. is_allowed L rl now (key @ '':'' @ get_client_ip req) 5 900 = Inl e \<longrightarrow>
      handle_login L M sc rl now req username password d tmpl redir key ra = (Inl e, rl)) \<and>
   (\<forall>allowed remaining rl'.
      is_allowed L rl now (key @ '':'' @ get_client_ip req) 5 900
        = Inr ((allowed, remaining), rl') \<longrightarrow>
    (let result = fst (handle_login L M sc rl now req username password d tmpl redir key ra);
         found = find (\<lambda>u. u_username u = username) (users d);
         invalid = Inr (TemplateResponse tmpl req ''Invalid username or password'' 401)
     in
      snd (handle_login L M sc rl now req username password d tmpl redir key ra) = rl' \<and>
      (\<not> allowed \<longrightarrow>
         (\<forall>d' username' password'.
            fst (handle_login L M sc rl now req username' password' d' tmpl redir key ra) =
              Inr (TemplateResponse tmpl req
                     ''Too many login attempts. Please try again in 15 minutes.'' 429))) \<and>
      (allowed \<and> found = None \<longrightarrow> result = invalid) \<and>
      (\<forall>usr. allowed \<and> found = Some usr \<and> truthy (u_password_hash usr) = None \<longrightarrow>
         result = invalid) \<and>
      (\<forall>usr h. allowed \<and> found = Some usr \<and> truthy (u_password_hash usr) = Some h \<and>
         verify_password L password h = Inr False \<longrightarrow>
         result = invalid) \<and>
      (\<forall>usr h. allowed \<and> found = Some usr \<and> truthy (u_password_hash usr) = Some h \<and>
         verify_password L password h = Inr True \<and> ra \<and> u_role usr \<noteq> ''admin'' \<longrightarrow>
         result = Inr (TemplateResponse tmpl req ''Admin access required'' 403)) \<and>
      (\<forall>usr h. allowed \<and> found = Some usr \<and> truthy (u_password_hash usr) = Some h \<and>
         verify_password L password h = Inr True \<and> \<not> (ra \<and> u_role usr \<noteq> ''admin'') \<and>
         \<not> u_is_active usr \<longrightarrow>
         result = Inr (TemplateResponse tmpl req ''Account is inactive'' 403)) \<and>
      (\<forall>usr h tok. allowed \<and> found = Some usr \<and> truthy (u_password_hash usr) = Some h \<and>
         verify_password L password h = Inr True \<and> \<not> (ra \<and> u_role usr \<noteq> ''admin'') \<and>
         u_is_active usr \<and> create_session L M (nat \<lfloor>now\<rfloor>) (u_id usr) = Inr tok \<longrightarrow>
         result = Inr (RedirectResponse redir 303
                    \<lparr>cookie_key = ''session'', cookie_value = tok,
                     cookie_httponly = True, cookie_secure = sc,
                     cookie_samesite = ''lax'',
                     cookie_max_age = expire_hours M * 3600\<rparr>))))"
proof (intro conjI allI impI)
  fix e
  assume "is_allowed L rl now (key @ '':'' @ get_client_ip req) 5 900 = Inl e"
  then show "handle_login L M sc rl now req username password d tmpl redir key ra = (Inl e, rl)"
    by (rule handle_login_raises)
next
  fix allowed remaining rl'
  assume ia: "is_allowed L rl now (key @ '':'' @ get_client_ip req) 5 900
        = Inr ((allowed, remaining), rl')"
  note lim = handle_login_limiter [OF ia, of M sc username password d tmpl redir ra]
  show "let result = fst (handle_login L M sc rl now req username password d tmpl redir key ra);
         found = find (\<lambda>u. u_username u = username) (users d);
         invalid = Inr (TemplateResponse tmpl req ''Invalid username or password'' 401)
     in
      snd (handle_login L M sc rl now req username password d tmpl redir key ra) = rl' \<and>
      (\<not> allowed \<longrightarrow>
         (\<forall>d' username' password'.
            fst (handle_login L M sc rl now req username' password' d' tmpl redir key ra) =
              Inr (TemplateResponse tmpl req
                     ''Too many login attempts. Please try again in 15 minutes.'' 429))) \<and>
      (allowed \<and> found = None \<longrightarrow> result = invalid) \<and>
      (\<forall>usr. allowed \<and> found = Some usr \<and> truthy (u_password_hash usr) = None \<longrightarrow>
         result = invalid) \<and>
      (\<forall>usr h. allowed \<and> found = Some usr \<and> truthy (u_password_hash usr) = Some h \<and>
         verify_password L password h = Inr False \<longrightarrow>
         result = invalid) \<and>
      (\<forall>usr h. allowed \<and> found = Some usr \<and> truthy (u_password_hash usr) = Some h \<and>
         verify_password L password h = Inr True \<and> ra \<and> u_role usr \<noteq> ''admin'' \<longrightarrow>
         result = Inr (TemplateResponse tmpl req ''Admin access required'' 403)) \<and>
      (\<forall>usr h. allowed \<and> found = Some usr \<and> truthy (u_password_hash usr) = Some h \<and>
         verify_password L password h = Inr True \<and> \<not> (ra \<and> u_role usr \<noteq> ''admin'') \<and>
         \<not> u_is_active usr \<longrightarrow>
         result = Inr (TemplateResponse tmpl req ''Account is inactive'' 403)) \<and>
      (\<forall>usr h tok. allowed \<and> found = Some usr \<and> truthy (u_password_hash usr) = Some h \<and>
         verify_password L password h = Inr True \<and> \<not> (ra \<and> u_role usr \<noteq> ''admin'') \<and>
         u_is_active usr \<and> create_session L M (nat \<lfloor>now\<rfloor>) (u_id usr) = Inr tok \<longrightarrow>
         result = Inr (RedirectResponse redir 303
                    \<lparr>cookie_key = ''session'', cookie_value = tok,
                     cookie_httponly = True, cookie_secure = sc,
                     cookie_samesite = ''lax'',
                     cookie_max_age = expire_hours M * 3600\<rparr>))"
  proof (cases allowed)
    case True
    have ia': "is_allowed L rl now (key @ '':'' @ get_client_ip req) 5 900
        = Inr ((True, remaining), rl')"
      using ia True by simp
    note eq = handle_login_allowed [OF ia', of M sc username password d tmpl redir ra]
    show ?thesis
      unfolding Let_def eq using True by (simp add: lim)
  next
    case False
    have ia': "is_allowed L rl now (key @ '':'' @ get_client_ip req) 5 900
        = Inr ((False, remaining), rl')"
      using ia False by simp
    have "\<forall>d' username' password'.
           fst (handle_login L M sc rl now req username' password' d' tmpl redir key ra) =
             Inr (TemplateResponse tmpl req
                    ''Too many login attempts. Please try again in 15 minutes.'' 429)"
      using handle_login_denied [OF ia'] by blast
    then show ?thesis
      unfolding Let_def using False by (simp add: lim)
  qed
qed

lemma ex_fresh_allowed:
  "is_allowed ref_runtime \<lparr>requests = \<lambda>k. []\<rparr> 100 k 5 900
     = Inr ((True, 4), \<lparr>requests = (\<lambda>k. [])(k := [100])\<rparr>)"
proof -
  have "ref_float_sub_int 100 900 = Inr (Finite (100 - of_int 900))"
    by (rule ref_float_sub_int_exact) simp_all
  then show ?thesis
    by (simp add: is_allowed_def and_then_def ref_runtime_def)
qed

lemma ex_find_bob: "find (\<lambda>u. u_username u = ''bob'') (users ex_db) = Some ex_bob"
  by (simp add: ex_db_def ex_alice_def ex_bob_def)

lemma ex_find_mallory: "find (\<lambda>u. u_username u = ''mallory'') (users ex_db) = None"
  by (simp add: ex_db_def ex_alice_def ex_bob_def)

lemma ex_bob_hash: "truthy (u_password_hash ex_bob) = Some ''$2b$hunter2''"
  by (simp add: ex_bob_def truthy_def)

lemma ex_bob_wrong_password:
  "verify_password ref_runtime ''letmein'' ''$2b$hunter2'' = Inr False"
  by (simp add: verify_password_def try_except_def and_then_def ref_runtime_def ref_checkpw_def)

theorem handle_login_order_witness:
  "is_allowed ref_runtime \<lparr>requests = \<lambda>k. []\<rparr> 100
     (''admin_login'' @ '':'' @ get_client_ip
        \<lparr>headers = Map.empty, cookies = Map.empty, client = Some \<lparr>host = ''10.0.0.9''\<rparr>,
         url_path = ''/admin/login''\<rparr>) 5 900
     = Inr ((True, 4), \<lparr>requests = (\<lambda>k. [])(''admin_login:10.0.0.9'' := [100])\<rparr>) \<and>
   find (\<lambda>u. u_username u = ''bob'') (users ex_db) = Some ex_bob \<and>
   truthy (u_password_hash ex_bob) = Some ''$2b$hunter2'' \<and>
   verify_password ref_runtime ''letmein'' ''$2b$hunter2'' = Inr False \<and>
   u_role ex_bob \<noteq> ''admin'' \<and> \<not> u_is_active ex_bob \<and>
   fst (handle_login ref_runtime ex_manager False \<lparr>requests = \<lambda>k. []\<rparr> 100
     \<lparr>headers = Map.empty, cookies = Map.empty, client = Some \<lparr>host = ''10.0.0.9''\<rparr>,
      url_path = ''/admin/login''\<rparr> ''bob'' ''letmein'' ex_db ''admin/login.html'' ''/admin''
     ''admin_login'' True)
   = Inr (TemplateResponse ''admin/login.html''
       \<lparr>headers = Map.empty, cookies = Map.empty, client = Some \<lparr>host = ''10.0.0.9''\<rparr>,
        url_path = ''/admin/login''\<rparr> ''Invalid username or password'' 401)"
proof -
  let ?req = "\<lparr>headers = Map.empty, cookies = Map.empty,
     client = Some \<lparr>host = ''10.0.0.9''\<rparr>, url_path = ''/admin/login''\<rparr>"
  have ip: "''admin_login'' @ '':'' @ get_client_ip ?req = ''admin_login:10.0.0.9''"
    by (simp add: get_client_ip_def truthy_def)
  have al: "is_allowed ref_runtime \<lparr>requests = \<lambda>k. []\<rparr> 100
      (''admin_login'' @ '':'' @ get_client_ip ?req) 5 900
     = Inr ((True, 4), \<lparr>requests = (\<lambda>k. [])(''admin_login:10.0.0.9'' := [100])\<rparr>)"
    unfolding ip by (rule ex_fresh_allowed)
  have r: "u_role ex_bob \<noteq> ''admin''" "\<not> u_is_active ex_bob"
    by (simp_all add: ex_bob_def)
  have "fst (handle_login ref_runtime ex_manager False \<lparr>requests = \<lambda>k. []\<rparr> 100 ?req
     ''bob'' ''letmein'' ex_db ''admin/login.html'' ''/admin'' ''admin_login'' True)
   = Inr (TemplateResponse ''admin/login.html'' ?req ''Invalid username or password'' 401)"
    using handle_login_order [of ref_runtime "\<lparr>requests = \<lambda>k. []\<rparr>" 100 "''admin_login''"
        ?req ex_manager False "''bob''" "''letmein''" ex_db "''admin/login.html''" "''/admin''"
        True, THEN conjunct2, THEN spec, THEN spec, THEN spec, THEN mp, OF al]
      ex_find_bob ex_bob_hash ex_bob_wrong_password
    by (simp add: Let_def)
  then show ?thesis
    using al ex_find_bob ex_bob_hash ex_bob_wrong_password r by simp
qed

text \<open>
  Claim C6. For two login attempts of one client that the limiter allows, one with a
  user name that no user has and one with the name of a user who has no password hash
  or whose password does not verify, \<open>handle_login\<close> gives the same response: the
  same template with the same error message \<open>Invalid username or password\<close> and the
  same status 401.
\<close>

theorem login_invalid_credentials_identical:
  assumes "is_allowed L rl_a now_a (key @ '':'' @ get_client_ip req) 5 900
             = Inr ((True, r_a), rl_a')"
    and "is_allowed L rl_b now_b (key @ '':'' @ get_client_ip req) 5 900
             = Inr ((True, r_b), rl_b')"
    and "find (\<lambda>u. u_username u = unknown_name) (users d) = None"
    and "find (\<lambda>u. u_username u = known_name) (users d) = Some usr"
    and "truthy (u_password_hash usr) = None \<or>
         (\<exists>h. truthy (u_password_hash usr) = Some h \<and>
              verify_password L wrong_password h = Inr False)"
  shows
    "fst (handle_login L M sc rl_a now_a req unknown_name any_password d tmpl redir key ra) =
     fst (handle_login L M sc rl_b now_b req known_name wrong_password d tmpl redir key ra) \<and>
     fst (handle_login L M sc rl_b now_b req known_name wrong_password d tmpl redir key ra) =
       Inr (TemplateResponse tmpl req ''Invalid username or password'' 401)"
proof -
  have a: "fst (handle_login L M sc rl_a now_a req unknown_name any_password d tmpl redir key ra)
      = Inr (TemplateResponse tmpl req ''Invalid username or password'' 401)"
    using assms(3) by (simp add: handle_login_allowed [OF assms(1)])
  have b: "fst (handle_login L M sc rl_b now_b req known_name wrong_password d tmpl redir key ra)
      = Inr (TemplateResponse tmpl req ''Invalid username or password'' 401)"
    using assms(4,5) by (auto simp add: handle_login_allowed [OF assms(2)])
  show ?thesis using a b by simp
qed

theorem login_invalid_credentials_identical_witness:
  "is_allowed ref_runtime \<lparr>requests = \<lambda>k. []\<rparr> 100
     (''login'' @ '':'' @ get_client_ip
        \<lparr>headers = Map.empty, cookies = Map.empty, client = Some \<lparr>host = ''10.0.0.9''\<rparr>,
         url_path = ''/login''\<rparr>) 5 900
     = Inr ((True, 4), \<lparr>requests = (\<lambda>k. [])(''login:10.0.0.9'' := [100])\<rparr>) \<and>
   find (\<lambda>u. u_username u = ''mallory'') (users ex_db) = None \<and>
   find (\<lambda>u. u_username u = ''bob'') (users ex_db) = Some ex_bob \<and>
   truthy (u_password_hash ex_bob) = Some ''$2b$hunter2'' \<and>
   verify_password ref_runtime ''letmein'' ''$2b$hunter2'' = Inr False \<and>
   fst (handle_login ref_runtime ex_manager False \<lparr>requests = \<lambda>k. []\<rparr> 100
     \<lparr>headers = Map.empty, cookies = Map.empty, client = Some \<lparr>host = ''10.0.0.9''\<rparr>,
      url_path = ''/login''\<rparr> ''mallory'' ''letmein'' ex_db ''user/login.html'' ''/account''
     ''login'' False)
   = fst (handle_login ref_runtime ex_manager False \<lparr>requests = \<lambda>k. []\<rparr> 100
     \<lparr>headers = Map.empty, cookies = Map.empty, client = Some \<lparr>host = ''10.0.0.9''\<rparr>,
      url_path = ''/login''\<rparr> ''bob'' ''letmein'' ex_db ''user/login.html'' ''/account''
     ''login'' False) \<and>
   fst (handle_login ref_runtime ex_manager False \<lparr>requests = \<lambda>k. []\<rparr> 100
     \<lparr>headers = Map.empty, cookies = Map.empty, client = Some \<lparr>host = ''10.0.0.9''\<rparr>,
      url_path = ''/login''\<rparr> ''bob'' ''letmein'' ex_db ''user/login.html'' ''/account''
     ''login'' False)
   = Inr (TemplateResponse ''user/login.html''
       \<lparr>headers = Map.empty, cookies = Map.empty, client = Some \<lparr>host = ''10.0.0.9''\<rparr>,
        url_path = ''/login''\<rparr> ''Invalid username or password'' 401)"
proof -
  let ?req = "\<lparr>headers = Map.empty, cookies = Map.empty,
     client = Some \<lparr>host = ''10.0.0.9''\<rparr>, url_path = ''/login''\<rparr>"
  have ip: "''login'' @ '':'' @ get_client_ip ?req = ''login:10.0.0.9''"
    by (simp add: get_client_ip_def truthy_def)
  have al: "is_allowed ref_runtime \<lparr>requests = \<lambda>k. []\<rparr> 100
      (''login'' @ '':'' @ get_client_ip ?req) 5 900
     = Inr ((True, 4), \<lparr>requests = (\<lambda>k. [])(''login:10.0.0.9'' := [100])\<rparr>)"
    unfolding ip by (rule ex_fresh_allowed)
  have h: "truthy (u_password_hash ex_bob) = None \<or>
         (\<exists>h. truthy (u_password_hash ex_bob) = Some h \<and>
              verify_password ref_runtime ''letmein'' h = Inr False)"
    using ex_bob_hash ex_bob_wrong_password by simp
  show ?thesis
    using login_invalid_credentials_identical [OF al al ex_find_mallory ex_find_bob h,
        where M = ex_manager and sc = False and any_password = "''letmein''"
        and tmpl = "''user/login.html''" and redir = "''/account''" and ra = False]
      al ex_find_mallory ex_find_bob ex_bob_hash ex_bob_wrong_password
    by simp
qed

subsection \<open>Search filter\<close>

lemma replace_empty_no_quotes:
  "dquote \<notin> set (replace_empty squote (replace_empty dquote s))"
  "squote \<notin> set (replace_empty squote (replace_empty dquote s))"
  by (simp_all add: replace_empty_def)

lemma add_hostname_cases:
  assumes "add_hostname B fs fa = Inr fa'"
  shows "fa' = fa \<or>
    (\<exists>s. py_truthy (dict_get fs ''hostname'') \<and> py_str B (dict_get fs ''hostname'') = Inr s \<and>
       fa' = fa @ [''hostname = '' @ [dquote] @
                    replace_empty squote (replace_empty dquote (strip s)) @ [dquote]])"
  using assms
  by (auto simp add: add_hostname_def and_then_def Let_def split: if_splits sum.splits)

lemma add_username_cases:
  assumes "add_username B fs fa = Inr fa'"
  shows "fa' = fa \<or>
    (\<exists>s. py_truthy (dict_get fs ''username'') \<and> py_str B (dict_get fs ''username'') = Inr s \<and>
       fa' = fa @ [''username = '' @ [dquote] @
                    replace_empty squote (replace_empty dquote (strip s)) @ [dquote]])"
  using assms
  by (auto simp add: add_username_def and_then_def Let_def split: if_splits sum.splits)

lemma add_exit_code_cases:
  assumes "add_exit_code B fs fa = Inr fa'"
  shows "fa' = fa \<or>
    (\<exists>n s. dict_get fs ''exit_code'' \<noteq> PyNone \<and> py_int B (dict_get fs ''exit_code'') = Inr n \<and>
       str_of_int B n = Inr s \<and> fa' = fa @ [''exit_code = '' @ s])"
  using assms
  by (auto simp add: add_exit_code_def and_then_def try_except_def split: if_splits sum.splits)

lemma and_then_Inr:
  "and_then m f = Inr y \<Longrightarrow> \<exists>x. m = Inr x \<and> f x = Inr y"
  by (cases m) (simp_all add: and_then_def)

lemma build_search_params_None:
  assumes "filters = None \<or> filters = Some []"
  shows "build_search_params B user_id filters limit offset =
     Inr \<lparr>sp_limit = limit, sp_offset = offset,
          sp_filter = Some [''user_id = '' @ [dquote] @ user_id @ [dquote]]\<rparr>"
  using assms
proof
  assume "filters = None"
  then show ?thesis by (simp add: build_search_params_def and_then_def)
next
  assume "filters = Some []"
  then show ?thesis by (simp add: build_search_params_def and_then_def)
qed

lemma build_search_params_Some:
  assumes "filters = Some fs" and "fs \<noteq> []"
    and "build_search_params B user_id filters limit offset = Inr p"
  shows "\<exists>fa1 fa2 fa3.
     add_hostname B fs [''user_id = '' @ [dquote] @ user_id @ [dquote]] = Inr fa1 \<and>
     add_username B fs fa1 = Inr fa2 \<and> add_exit_code B fs fa2 = Inr fa3 \<and>
     p = \<lparr>sp_limit = limit, sp_offset = offset,
          sp_filter = (if fa3 \<noteq> [] then Some fa3 else None)\<rparr>"
proof -
  let ?uc = "[''user_id = '' @ [dquote] @ user_id @ [dquote]]"
  have eq: "build_search_params B user_id filters limit offset =
     and_then (and_then (add_hostname B fs ?uc) (\<lambda>fa.
                 and_then (add_username B fs fa) (\<lambda>fa. add_exit_code B fs fa)))
       (\<lambda>fa. Inr \<lparr>sp_limit = limit, sp_offset = offset,
                 sp_filter = (if fa \<noteq> [] then Some fa else None)\<rparr>)"
    using assms(1,2) by (simp add: build_search_params_def)
  from assms(3) [unfolded eq] obtain fa3 where
    a: "and_then (add_hostname B fs ?uc) (\<lambda>fa.
          and_then (add_username B fs fa) (\<lambda>fa. add_exit_code B fs fa)) = Inr fa3"
    and p: "Inr \<lparr>sp_limit = limit, sp_offset = offset,
                 sp_filter = (if fa3 \<noteq> [] then Some fa3 else None)\<rparr> = (Inr p :: raised + search_params)"
    by (blast dest: and_then_Inr)
  from a obtain fa1 where
    s1: "add_hostname B fs ?uc = Inr fa1"
    and b: "and_then (add_username B fs fa1) (\<lambda>fa. add_exit_code B fs fa) = Inr fa3"
    by (blast dest: and_then_Inr)
  from b obtain fa2 where
    s2: "add_username B fs fa1 = Inr fa2" and s3: "add_exit_code B fs fa2 = Inr fa3"
    by (blast dest: and_then_Inr)
  from p have "p = \<lparr>sp_limit = limit, sp_offset = offset,
                 sp_filter = (if fa3 \<noteq> [] then Some fa3 else None)\<rparr>"
    by simp
  then show ?thesis using s1 s2 s3 by blast
qed

text \<open>
  Claim C1. Whatever the query, the filters, the limit and the offset, the filter array
  that \<open>search\<close> builds starts with the conjunct \<open>user_id = "<user_id>"\<close>, and the index is
  queried with these parameters only (when building them raises, it is not queried and
  the result is empty). Every further element of the array is a hostname or username
  conjunct whose embedded value is the filter value stripped and freed of both quote
  characters, or the exit-code conjunct; the latter is there only when the supplied
  value is not \<open>None\<close> and \<open>int()\<close> converts it to the integer that is embedded.
\<close>

theorem search_filter_user_scope:
  "(\<forall>p. build_search_params B user_id filters limit offset = Inr p \<longrightarrow>
      (\<exists>rest. sp_filter p = Some ((''user_id = '' @ [dquote] @ user_id @ [dquote]) # rest) \<and>
         (\<forall>x \<in> set rest.
            (\<exists>fs s e. filters = Some fs \<and> py_str B (dict_get fs ''hostname'') = Inr s \<and>
               e = replace_empty squote (replace_empty dquote (strip s)) \<and>
               dquote \<notin> set e \<and> squote \<notin> set e \<and>
               x = ''hostname = '' @ [dquote] @ e @ [dquote]) \<or>
            (\<exists>fs s e. filters = Some fs \<and> py_str B (dict_get fs ''username'') = Inr s \<and>
               e = replace_empty squote (replace_empty dquote (strip s)) \<and>
               dquote \<notin> set e \<and> squote \<notin> set e \<and>
               x = ''username = '' @ [dquote] @ e @ [dquote]) \<or>
            (\<exists>fs n s. filters = Some fs \<and> dict_get fs ''exit_code'' \<noteq> PyNone \<and>
               py_int B (dict_get fs ''exit_code'') = Inr n \<and> str_of_int B n = Inr s \<and>
               x = ''exit_code = '' @ s)))) \<and>
   (\<forall>index_search.
      search B (Some index_search) query user_id filters limit offset =
        Inr (case build_search_params B user_id filters limit offset of
               Inl e \<Rightarrow> empty_result
             | Inr p \<Rightarrow>
                 (case index_search query p of
                    Inl e \<Rightarrow> empty_result
                  | Inr results \<Rightarrow> format_results query limit offset results)))"
proof (intro conjI allI impI)
  fix index_search :: "string \<Rightarrow> search_params \<Rightarrow> raised + 'h raw_results"
  show "search B (Some index_search) query user_id filters limit offset =
        Inr (case build_search_params B user_id filters limit offset of
               Inl e \<Rightarrow> empty_result
             | Inr p \<Rightarrow>
                 (case index_search query p of
                    Inl e \<Rightarrow> empty_result
                  | Inr results \<Rightarrow> format_results query limit offset results))"
    by (simp add: search_def try_except_Exception and_then_def split: sum.splits)
next
  fix p
  assume b: "build_search_params B user_id filters limit offset = Inr p"
  let ?uc = "''user_id = '' @ [dquote] @ user_id @ [dquote]"
  let ?H = "\<lambda>x. \<exists>fs s e. filters = Some fs \<and> py_str B (dict_get fs ''hostname'') = Inr s \<and>
               e = replace_empty squote (replace_empty dquote (strip s)) \<and>
               dquote \<notin> set e \<and> squote \<notin> set e \<and>
               x = ''hostname = '' @ [dquote] @ e @ [dquote]"
  let ?U = "\<lambda>x. \<exists>fs s e. filters = Some fs \<and> py_str B (dict_get fs ''username'') = Inr s \<and>
               e = replace_empty squote (replace_empty dquote (strip s)) \<and>
               dquote \<notin> set e \<and> squote \<notin> set e \<and>
               x = ''username = '' @ [dquote] @ e @ [dquote]"
  let ?E = "\<lambda>x. \<exists>fs n s. filters = Some fs \<and> dict_get fs ''exit_code'' \<noteq> PyNone \<and>
               py_int B (dict_get fs ''exit_code'') = Inr n \<and> str_of_int B n = Inr s \<and>
               x = ''exit_code = '' @ s"
  show "\<exists>rest. sp_filter p = Some (?uc # rest) \<and> (\<forall>x \<in> set rest. ?H x \<or> ?U x \<or> ?E x)"
  proof (cases "filters = None \<or> filters = Some []")
    case True
    from build_search_params_None [OF True, of B user_id limit offset] b
    have "sp_filter p = Some [?uc]" by auto
    then show ?thesis by simp
  next
    case False
    then obtain fs where fs: "filters = Some fs" "fs \<noteq> []" by auto
    from build_search_params_Some [OF fs b]
    obtain fa1 fa2 fa3 where
      s1: "add_hostname B fs [?uc] = Inr fa1" and
      s2: "add_username B fs fa1 = Inr fa2" and
      s3: "add_exit_code B fs fa2 = Inr fa3" and
      p: "p = \<lparr>sp_limit = limit, sp_offset = offset,
               sp_filter = (if fa3 \<noteq> [] then Some fa3 else None)\<rparr>"
      by blast
    obtain r1 where r1: "fa1 = ?uc # r1" "\<forall>x \<in> set r1. ?H x"
    proof -
      from add_hostname_cases [OF s1] show ?thesis
      proof
        assume "fa1 = [?uc]"
        moreover have "\<forall>x \<in> set ([] :: string list). ?H x" by simp
        ultimately show ?thesis by (rule that)
      next
        assume "\<exists>s. py_truthy (dict_get fs ''hostname'') \<and>
          py_str B (dict_get fs ''hostname'') = Inr s \<and>
          fa1 = [?uc] @ [''hostname = '' @ [dquote] @
                    replace_empty squote (replace_empty dquote (strip s)) @ [dquote]]"
        then obtain s where ps: "py_str B (dict_get fs ''hostname'') = Inr s"
          and f: "fa1 = [?uc] @ [''hostname = '' @ [dquote] @
                    replace_empty squote (replace_empty dquote (strip s)) @ [dquote]]"
          by blast
        let ?c = "''hostname = '' @ [dquote] @
                    replace_empty squote (replace_empty dquote (strip s)) @ [dquote]"
        have u: "?H ?c"
          using fs(1) ps replace_empty_no_quotes by blast
        have "fa1 = ?uc # [?c]" using f by simp
        moreover have "\<forall>x \<in> set [?c]. ?H x"
        proof
          fix x assume "x \<in> set [?c]"
          then have "x = ?c" by simp
          then show "?H x" using u by blast
        qed
        ultimately show ?thesis by (rule that)
      qed
    qed
    obtain r2 where r2: "fa2 = ?uc # r2" "\<forall>x \<in> set r2. ?H x \<or> ?U x"
    proof -
      from add_username_cases [OF s2] show ?thesis
      proof
        assume "fa2 = fa1"
        then have "fa2 = ?uc # r1" using r1(1) by simp
        moreover have "\<forall>x \<in> set r1. ?H x \<or> ?U x" using r1(2) by blast
        ultimately show ?thesis by (rule that)
      next
        assume "\<exists>s. py_truthy (dict_get fs ''username'') \<and>
          py_str B (dict_get fs ''username'') = Inr s \<and>
          fa2 = fa1 @ [''username = '' @ [dquote] @
                    replace_empty squote (replace_empty dquote (strip s)) @ [dquote]]"
        then obtain s where ps: "py_str B (dict_get fs ''username'') = Inr s"
          and f: "fa2 = fa1 @ [''username = '' @ [dquote] @
                    replace_empty squote (replace_empty dquote (strip s)) @ [dquote]]"
          by blast
        have u: "?U (''username = '' @ [dquote] @
                    replace_empty squote (replace_empty dquote (strip s)) @ [dquote])"
          using fs(1) ps replace_empty_no_quotes by blast
        let ?c = "''username = '' @ [dquote] @
                    replace_empty squote (replace_empty dquote (strip s)) @ [dquote]"
        have "fa2 = ?uc # (r1 @ [?c])" using f r1(1) by simp
        moreover have "\<forall>x \<in> set (r1 @ [?c]). ?H x \<or> ?U x"
        proof
          fix x assume "x \<in> set (r1 @ [?c])"
          then have "x \<in> set r1 \<or> x = ?c" by auto
          then show "?H x \<or> ?U x" using r1(2) u by blast
        qed
        ultimately show ?thesis by (rule that)
      qed
    qed
    obtain r3 where r3: "fa3 = ?uc # r3" "\<forall>x \<in> set r3. ?H x \<or> ?U x \<or> ?E x"
    proof -
      from add_exit_code_cases [OF s3] show ?thesis
      proof
        assume "fa3 = fa2"
        then have "fa3 = ?uc # r2" using r2(1) by simp
        moreover have "\<forall>x \<in> set r2. ?H x \<or> ?U x \<or> ?E x" using r2(2) by blast
        ultimately show ?thesis by (rule that)
      next
        assume "\<exists>n s. dict_get fs ''exit_code'' \<noteq> PyNone \<and>
          py_int B (dict_get fs ''exit_code'') = Inr n \<and>
          str_of_int B n = Inr s \<and> fa3 = fa2 @ [''exit_code = '' @ s]"
        then obtain n s where e: "dict_get fs ''exit_code'' \<noteq> PyNone"
          "py_int B (dict_get fs ''exit_code'') = Inr n" "str_of_int B n = Inr s"
          and f: "fa3 = fa2 @ [''exit_code = '' @ s]"
          by blast
        have u: "?E (''exit_code = '' @ s)"
          using fs(1) e by blast
        have "fa3 = ?uc # (r2 @ [''exit_code = '' @ s])" using f r2(1) by simp
        moreover have "\<forall>x \<in> set (r2 @ [''exit_code = '' @ s]). ?H x \<or> ?U x \<or> ?E x"
        proof
          fix x assume "x \<in> set (r2 @ [''exit_code = '' @ s])"
          then have "x \<in> set r2 \<or> x = ''exit_code = '' @ s" by auto
          then show "?H x \<or> ?U x \<or> ?E x" using r2(2) u by blast
        qed
        ultimately show ?thesis by (rule that)
      qed
    qed
    have "sp_filter p = Some (?uc # r3)"
      using p r3(1) by simp
    then show ?thesis
      using r3(2) by blast
  qed
qed

lemma ex_build_search_params:
  "build_search_params ref_builtins ''u1''
     (Some [(''hostname'', PyStr ('' web'' @ [dquote] @ ''1 '')), (''username'', PyStr ''root''),
            (''exit_code'', PyInt 0)]) 50 0 =
   Inr \<lparr>sp_limit = 50, sp_offset = 0,
        sp_filter = Some [''user_id = '' @ [dquote] @ ''u1'' @ [dquote],
                          ''hostname = '' @ [dquote] @ ''web1'' @ [dquote],
                          ''username = '' @ [dquote] @ ''root'' @ [dquote],
                          ''exit_code = 0'']\<rparr>"
proof -
  have c: "char_of (48::nat) = CHR ''0''"
    by code_simp
  have d: "str_of_int ref_builtins 0 = Inr ''0''"
    by (simp add: ref_builtins_def c)
  show ?thesis
    by (simp add: build_search_params_def add_hostname_def add_username_def add_exit_code_def
        and_then_def try_except_def dict_get_def Let_def d
        strip_def py_isspace_def replace_empty_def dquote_def squote_def)
qed

lemma ex_build_search_params_bad_exit_code:
  "build_search_params ref_builtins ''u1'' (Some [(''exit_code'', PyStr ''abc'')]) 50 0 =
   Inr \<lparr>sp_limit = 50, sp_offset = 0,
        sp_filter = Some [''user_id = '' @ [dquote] @ ''u1'' @ [dquote]]\<rparr>"
proof -
  have i: "int_of_str ref_builtins ''abc'' = Inl (Raised ValueError)"
    by (simp add: ref_builtins_def ref_int_of_str_def is_digit_def)
  show ?thesis
    by (simp add: build_search_params_def add_hostname_def add_username_def add_exit_code_def
        and_then_def try_except_def except_def issubclass_def dict_get_def Let_def i)
qed

theorem search_filter_user_scope_witness:
  "build_search_params ref_builtins ''u1''
     (Some [(''hostname'', PyStr ('' web'' @ [dquote] @ ''1 '')), (''username'', PyStr ''root''),
            (''exit_code'', PyInt 0)]) 50 0 =
   Inr \<lparr>sp_limit = 50, sp_offset = 0,
        sp_filter = Some [''user_id = '' @ [dquote] @ ''u1'' @ [dquote],
                          ''hostname = '' @ [dquote] @ ''web1'' @ [dquote],
                          ''username = '' @ [dquote] @ ''root'' @ [dquote],
                          ''exit_code = 0'']\<rparr> \<and>
   build_search_params ref_builtins ''u1'' (Some [(''exit_code'', PyStr ''abc'')]) 50 0 =
   Inr \<lparr>sp_limit = 50, sp_offset = 0,
        sp_filter = Some [''user_id = '' @ [dquote] @ ''u1'' @ [dquote]]\<rparr> \<and>
   search ref_builtins (Some (\<lambda>q p. Inr \<lparr>raw_hits = Some [sp_filter p], raw_totalHits = None,
                                        raw_nbHits = None\<rparr>))
     ''ls'' ''u1'' (Some [(''exit_code'', PyStr ''abc'')]) 50 0 =
   Inr \<lparr>res_hits = [Some [''user_id = '' @ [dquote] @ ''u1'' @ [dquote]]], res_total = 1,
        res_query = Some ''ls'', res_limit = Some 50, res_offset = Some 0\<rparr>"
proof -
  have s: "search ref_builtins (Some (\<lambda>q p. Inr \<lparr>raw_hits = Some [sp_filter p],
               raw_totalHits = None, raw_nbHits = None\<rparr>))
     ''ls'' ''u1'' (Some [(''exit_code'', PyStr ''abc'')]) 50 0 =
     Inr (format_results ''ls'' 50 0
            \<lparr>raw_hits = Some [Some [''user_id = '' @ [dquote] @ ''u1'' @ [dquote]]],
             raw_totalHits = None, raw_nbHits = None\<rparr>)"
    using search_filter_user_scope [of ref_builtins "''u1''"
      "Some [(''exit_code'', PyStr ''abc'')]" 50 0 "''ls''", THEN conjunct2, THEN spec,
      of "\<lambda>q p. Inr \<lparr>raw_hits = Some [sp_filter p],
               raw_totalHits = None, raw_nbHits = None\<rparr>"]
    by (simp add: ex_build_search_params_bad_exit_code)
  show ?thesis
    using s ex_build_search_params ex_build_search_params_bad_exit_code
    by (simp add: format_results_def count_or_def)
qed

end
